theory Spec2Isabelle
  imports Main "HOL-Library.Word"
begin

section \<open>Memory model of the shell's argument vectors\<close>

text \<open>
  The shell of \<^verbatim>\<open>src/shell.c\<close> keeps a command line as a \<^verbatim>\<open>char **\<close>: a heap array
  of pointers to strings, ended by a NULL pointer. An array is modelled as the list of
  its slots; the length of the list is the number of slots that were allocated. A slot
  that \<^verbatim>\<open>malloc\<close> returned and nobody wrote yet is \<open>Junk\<close>. A \<open>Str\<close> slot holds the
  characters of the string it points to, up to its terminating NUL.

  Everything that keeps a C function from returning to its caller is a value of \<open>halt\<close>:
  an access outside the array (undefined behaviour in C), a read of an indeterminate
  slot, a NULL pointer handed to \<^verbatim>\<open>strcmp\<close> or written through, a signed overflow, a
  \<^verbatim>\<open>printf\<close> of a message followed by \<^verbatim>\<open>exit\<close>, and a successful \<^verbatim>\<open>execvp\<close>.
\<close>

datatype halt =
    OutOfBounds
  | Indeterminate
  | NullDeref
  | IntOverflow
  | Exit string int
  | Replaced

datatype cell = Junk | Null | Str string

definition rd :: "cell list \<Rightarrow> int \<Rightarrow> halt + cell" where
  "rd a i =
     (if 0 \<le> i \<and> i < int (length a)
      then (case a ! nat i of Junk \<Rightarrow> Inl Indeterminate | Null \<Rightarrow> Inr Null | Str s \<Rightarrow> Inr (Str s))
      else Inl OutOfBounds)"

definition wr :: "cell list \<Rightarrow> int \<Rightarrow> cell \<Rightarrow> halt + cell list" where
  "wr a i c = (if 0 \<le> i \<and> i < int (length a) then Inr (a[nat i := c]) else Inl OutOfBounds)"

text \<open>\<^verbatim>\<open>strcmp(p, s) == 0\<close> for a pointer read from a slot and a string literal.\<close>

definition strcmp0 :: "cell \<Rightarrow> string \<Rightarrow> halt + bool" where
  "strcmp0 c s =
     (case c of Junk \<Rightarrow> Inl Indeterminate | Null \<Rightarrow> Inl NullDeref | Str t \<Rightarrow> Inr (t = s))"

text \<open>
  The array that holds the vector \<open>v\<close>: its strings, the NULL, and whatever slots
  \<open>rest\<close> the allocation has after it.
\<close>

definition argv :: "string list \<Rightarrow> cell list \<Rightarrow> cell list" where
  "argv v rest = map Str v @ Null # rest"

text \<open>The vector an array holds: the strings before the first slot that is no string.\<close>

fun vec :: "cell list \<Rightarrow> string list" where
  "vec (Str s # a) = s # vec a"
| "vec a = []"

section \<open>The classifier\<close>

subsection \<open>Counting the arguments\<close>

text \<open>
  \<^verbatim>\<open>for (i = 0; command_line_args[i] != NULL; i++);\<close> of \<^verbatim>\<open>block_check\<close> and of
  \<^verbatim>\<open>count_command_line_args\<close>.
\<close>

function scan_null :: "cell list \<Rightarrow> nat \<Rightarrow> halt + nat" where
  "scan_null a i =
     (case rd a (int i) of
        Inl e \<Rightarrow> Inl e
      | Inr c \<Rightarrow> if c \<noteq> Null then scan_null a (Suc i) else Inr i)"
  by pat_completeness auto
termination
  by (relation "measure (\<lambda>(a, i). length a - i)") (auto simp: rd_def split: if_splits)

declare scan_null.simps [simp del]

definition count_command_line_args :: "cell list \<Rightarrow> halt + nat" where
  "count_command_line_args a = scan_null a 0"

subsection \<open>Background check\<close>

text \<open>
  \<^verbatim>\<open>block_check\<close> returns 0 when the last argument is \<^verbatim>\<open>&\<close> (the shell does not
  block), after it overwrote that slot with NULL, and 1 otherwise.
\<close>

definition block_check :: "cell list \<Rightarrow> halt + (int \<times> cell list)" where
  "block_check a =
     (case scan_null a 0 of
        Inl e \<Rightarrow> Inl e
      | Inr i \<Rightarrow>
          (case rd a (int i - 1) of
             Inl e \<Rightarrow> Inl e
           | Inr c \<Rightarrow>
               (case strcmp0 c ''&'' of
                  Inl e \<Rightarrow> Inl e
                | Inr amp \<Rightarrow>
                    if amp
                    then (case wr a (int i - 1) Null of
                            Inl e \<Rightarrow> Inl e
                          | Inr a' \<Rightarrow> Inr (0, a'))
                    else Inr (1, a))))"

subsection \<open>Output redirection\<close>

text \<open>
  The inner loop of \<^verbatim>\<open>output_redirection\<close>,
  \<^verbatim>\<open>for (j = i; command_line_args[j - 1] != NULL; j++) command_line_args[j] = command_line_args[j + 2];\<close>
  which moves the slots after the operator and the file name two places down. Its test
  reads the slot before \<open>j\<close>.
\<close>

function remove_two :: "cell list \<Rightarrow> nat \<Rightarrow> halt + cell list" where
  "remove_two a j =
     (case rd a (int j - 1) of
        Inl e \<Rightarrow> Inl e
      | Inr c \<Rightarrow>
          if c \<noteq> Null
          then (case rd a (int j + 2) of
                  Inl e \<Rightarrow> Inl e
                | Inr x \<Rightarrow>
                    (case wr a (int j) x of
                       Inl e \<Rightarrow> Inl e
                     | Inr a' \<Rightarrow> remove_two a' (Suc j)))
          else Inr a)"
  by pat_completeness auto
termination
  by (relation "measure (\<lambda>(a, j). length a - j)")
    (auto simp: rd_def wr_def split: if_splits)

declare remove_two.simps [simp del]

text \<open>
  The outer loop of \<^verbatim>\<open>output_redirection\<close>, from index \<open>i\<close>. The result is the
  pointer the function returns (the file name, or NULL when there is no operator) and
  the array as the function leaves it.
\<close>

function output_redirection_from :: "cell list \<Rightarrow> nat \<Rightarrow> halt + (cell \<times> cell list)" where
  "output_redirection_from a i =
     (case rd a (int i) of
        Inl e \<Rightarrow> Inl e
      | Inr c \<Rightarrow>
          if c \<noteq> Null
          then (case strcmp0 c ''>'' of
                  Inl e \<Rightarrow> Inl e
                | Inr gt \<Rightarrow>
                    (case strcmp0 c ''>>'' of
                       Inl e \<Rightarrow> Inl e
                     | Inr gtgt \<Rightarrow>
                         if gt \<or> gtgt
                         then (case rd a (int i + 1) of
                                 Inl e \<Rightarrow> Inl e
                               | Inr f \<Rightarrow>
                                   if f \<noteq> Null
                                   then (case remove_two a i of
                                           Inl e \<Rightarrow> Inl e
                                         | Inr a' \<Rightarrow> Inr (f, a'))
                                   else Inl (Exit ''must specify output file\<newline>'' 1))
                         else output_redirection_from a (Suc i)))
          else Inr (Null, a))"
  by pat_completeness auto
termination
  by (relation "measure (\<lambda>(a, i). length a - i)") (auto simp: rd_def split: if_splits)

declare output_redirection_from.simps [simp del]

definition output_redirection :: "cell list \<Rightarrow> halt + (cell \<times> cell list)" where
  "output_redirection a = output_redirection_from a 0"

subsection \<open>Pipe check\<close>

function pipe_check_from :: "cell list \<Rightarrow> nat \<Rightarrow> halt + int" where
  "pipe_check_from a i =
     (case rd a (int i) of
        Inl e \<Rightarrow> Inl e
      | Inr c \<Rightarrow>
          if c \<noteq> Null
          then (case strcmp0 c ''|'' of
                  Inl e \<Rightarrow> Inl e
                | Inr bar \<Rightarrow> if bar then Inr (int i) else pipe_check_from a (Suc i))
          else Inr (- 1))"
  by pat_completeness auto
termination
  by (relation "measure (\<lambda>(a, i). length a - i)") (auto simp: rd_def split: if_splits)

declare pipe_check_from.simps [simp del]

definition pipe_check :: "cell list \<Rightarrow> halt + int" where
  "pipe_check a = pipe_check_from a 0"

text \<open>The reserved tokens of the command language.\<close>

definition is_redir :: "string \<Rightarrow> bool" where
  "is_redir s = (s = ''>'' \<or> s = ''>>'')"

definition reserved :: "string \<Rightarrow> bool" where
  "reserved s = (s = ''&'' \<or> s = ''>'' \<or> s = ''>>'' \<or> s = ''|'')"

text \<open>
  The three checks in the order of \<^verbatim>\<open>execute_command_line\<close>: the blocking flag, the
  output file, the index of the pipe and the array after the checks.
\<close>

definition classify :: "cell list \<Rightarrow> halt + (int \<times> cell \<times> int \<times> cell list)" where
  "classify a =
     (case block_check a of
        Inl e \<Rightarrow> Inl e
      | Inr (block, a1) \<Rightarrow>
          (case output_redirection a1 of
             Inl e \<Rightarrow> Inl e
           | Inr (output_file, a2) \<Rightarrow>
               (case pipe_check a2 of
                  Inl e \<Rightarrow> Inl e
                | Inr pipe_index \<Rightarrow> Inr (block, output_file, pipe_index, a2))))"

text \<open>
  What the specification says the first two checks remove, on the vector itself: the
  last element when it is \<^verbatim>\<open>&\<close>, and the first redirection operator together with
  the element after it.
\<close>

definition without_background :: "string list \<Rightarrow> string list" where
  "without_background v = (if v \<noteq> [] \<and> last v = ''&'' then butlast v else v)"

fun without_redirection :: "string list \<Rightarrow> string list" where
  "without_redirection [] = []"
| "without_redirection (x # xs) =
     (if is_redir x then drop 1 xs else x # without_redirection xs)"

text \<open>
  The first redirection operator of a vector, if there is one, is not element 0 and has
  an element after it.
\<close>

definition redirection_placed :: "string list \<Rightarrow> bool" where
  "redirection_placed w =
     (case dropWhile (\<lambda>s. \<not> is_redir s) w of
        [] \<Rightarrow> True
      | [op] \<Rightarrow> False
      | op # f # post \<Rightarrow> takeWhile (\<lambda>s. \<not> is_redir s) w \<noteq> [])"

text \<open>A vector whose last element is a reserved token.\<close>

definition ends_reserved :: "string list \<Rightarrow> bool" where
  "ends_reserved r = (case r of [] \<Rightarrow> False | x # xs \<Rightarrow> reserved (last (x # xs)))"

text \<open>The last real element of the vector an array holds is no reserved token.\<close>

definition ends_clean :: "cell list \<Rightarrow> bool" where
  "ends_clean a = (case vec a of [] \<Rightarrow> True | x # xs \<Rightarrow> \<not> reserved (last (x # xs)))"

section \<open>The machine\<close>

text \<open>
  What the program cannot know about the machine and the system it runs on: which
  allocation requests (in bytes) the allocator grants, the size of a pointer, the value
  of \<^verbatim>\<open>HOME\<close> in the environment (\<open>None\<close> when it is unset), the directory a path
  names seen from a working directory (\<open>None\<close> when \<^verbatim>\<open>chdir\<close> fails), the programs
  \<^verbatim>\<open>execvp\<close> can start, the descriptor \<^verbatim>\<open>open\<close> returns, the two descriptors
  \<^verbatim>\<open>pipe\<close> stores, and what the \<open>n\<close>-th call of \<^verbatim>\<open>fork\<close> returns in the process that is
  followed (negative: no child was created; 0: this is the child).
\<close>

record machine =
  alloc_ok :: "nat \<Rightarrow> bool"
  ptr_size :: nat
  home :: "string option"
  resolve :: "string \<Rightarrow> string \<Rightarrow> string option"
  can_exec :: "string \<Rightarrow> bool"
  open_fd :: int
  pipe_rd :: int
  pipe_wr :: int
  fork_pid :: "nat \<Rightarrow> int"

text \<open>
  A machine with 8-byte pointers whose allocator grants every request, where \<^verbatim>\<open>HOME\<close>
  is \<^verbatim>\<open>/home/user\<close>, the directories are \<^verbatim>\<open>/home/user\<close> and \<^verbatim>\<open>/tmp\<close>, the programs are
  \<^verbatim>\<open>ls\<close> and \<^verbatim>\<open>wc\<close>, and every \<^verbatim>\<open>fork\<close> returns a new child to the parent.
\<close>

definition machine64 :: machine where
  "machine64 =
     \<lparr>alloc_ok = (\<lambda>n. True), ptr_size = 8, home = Some ''/home/user'',
      resolve = (\<lambda>d p. if p = ''/home/user'' \<or> p = ''/tmp'' then Some p else None),
      can_exec = (\<lambda>f. f = ''ls'' \<or> f = ''wc''), open_fd = 3, pipe_rd = 3, pipe_wr = 4,
      fork_pid = (\<lambda>n. 1000 + int n)\<rparr>"

section \<open>The pipe launcher: splitting the vector\<close>

text \<open>
  \<^verbatim>\<open>(char **)malloc(n * sizeof(char *))\<close>: a fresh array of \<open>n\<close> unwritten slots, or the
  NULL pointer (\<open>None\<close>) when the request is refused. \<^verbatim>\<open>execute_external_pipe\<close> does not
  test the result; \<^verbatim>\<open>parse_command_line\<close> does.
\<close>

definition malloc_cells :: "machine \<Rightarrow> int \<Rightarrow> cell list option" where
  "malloc_cells m n =
     (if 0 \<le> n \<and> alloc_ok m (nat n * ptr_size m) then Some (replicate (nat n) Junk) else None)"

text \<open>A write through a pointer that may be NULL.\<close>

definition wrp :: "cell list option \<Rightarrow> int \<Rightarrow> cell \<Rightarrow> halt + cell list option" where
  "wrp p i c =
     (case p of
        None \<Rightarrow> Inl NullDeref
      | Some a \<Rightarrow> (case wr a i c of Inl e \<Rightarrow> Inl e | Inr a' \<Rightarrow> Inr (Some a')))"

text \<open>
  \<^verbatim>\<open>for (; command_line_args[i - 1] != NULL; i++) pipe_left[i] = command_line_args[i];\<close>
\<close>

function copy_left :: "cell list \<Rightarrow> cell list option \<Rightarrow> nat \<Rightarrow> halt + (cell list option \<times> nat)" where
  "copy_left a pl i =
     (case rd a (int i - 1) of
        Inl e \<Rightarrow> Inl e
      | Inr c \<Rightarrow>
          if c \<noteq> Null
          then (case rd a (int i) of
                  Inl e \<Rightarrow> Inl e
                | Inr x \<Rightarrow>
                    (case wrp pl (int i) x of
                       Inl e \<Rightarrow> Inl e
                     | Inr pl' \<Rightarrow> copy_left a pl' (Suc i)))
          else Inr (pl, i))"
  by pat_completeness auto
termination
  by (relation "measure (\<lambda>(a, pl, i). length a - i)") (auto simp: rd_def split: if_splits)

declare copy_left.simps [simp del]

text \<open>
  \<^verbatim>\<open>for (; command_line_args[i] != NULL; j++, i++) pipe_right[j] = command_line_args[i];\<close>
\<close>

function copy_right ::
  "cell list \<Rightarrow> cell list option \<Rightarrow> nat \<Rightarrow> nat \<Rightarrow> halt + (cell list option \<times> nat)" where
  "copy_right a pr i j =
     (case rd a (int i) of
        Inl e \<Rightarrow> Inl e
      | Inr c \<Rightarrow>
          if c \<noteq> Null
          then (case wrp pr (int j) c of
                  Inl e \<Rightarrow> Inl e
                | Inr pr' \<Rightarrow> copy_right a pr' (Suc i) (Suc j))
          else Inr (pr, j))"
  by pat_completeness auto
termination
  by (relation "measure (\<lambda>(a, pr, i, j). length a - i)") (auto simp: rd_def split: if_splits)

declare copy_right.simps [simp del]

text \<open>
  Lines 397 to 425 of \<^verbatim>\<open>execute_external_pipe\<close>: the count of the arguments, the NULL
  written over the pipe token, the two allocations, the two copies and the terminator of
  \<^verbatim>\<open>pipe_right\<close>, written at \<^verbatim>\<open>pipe_right[j + 1]\<close>. The result is \<^verbatim>\<open>pipe_left\<close> and
  \<^verbatim>\<open>pipe_right\<close>.
\<close>

definition execute_external_pipe_split ::
  "machine \<Rightarrow> cell list \<Rightarrow> int \<Rightarrow> halt + (cell list option \<times> cell list option)" where
  "execute_external_pipe_split m a pipe_index =
     (case count_command_line_args a of
        Inl e \<Rightarrow> Inl e
      | Inr num_command_line_args \<Rightarrow>
          (let num_right = int num_command_line_args - (pipe_index + 1) in
           case wr a pipe_index Null of
             Inl e \<Rightarrow> Inl e
           | Inr a1 \<Rightarrow>
               (let pipe_left = malloc_cells m (pipe_index + 1);
                    pipe_right = malloc_cells m num_right in
                case copy_left a1 pipe_left 0 of
                  Inl e \<Rightarrow> Inl e
                | Inr (pl, i) \<Rightarrow>
                    (case copy_right a1 pipe_right i 0 of
                       Inl e \<Rightarrow> Inl e
                     | Inr (pr, j) \<Rightarrow>
                         (case wrp pr (int j + 1) Null of
                            Inl e \<Rightarrow> Inl e
                          | Inr pr' \<Rightarrow> Inr (pl, pr'))))))"

section \<open>The launchers\<close>

text \<open>
  The system calls of a process, in the order it makes them, and the text it prints
  without leaving.
\<close>

datatype event =
    Print string
  | Chdir "string option"
  | Pipe
  | Fork
  | Open cell
  | Close int
  | Dup int
  | Dup2 int int
  | Execvp string "cell list option"
  | Waitpid int

definition rdp :: "cell list option \<Rightarrow> int \<Rightarrow> halt + cell" where
  "rdp p i = (case p of None \<Rightarrow> Inl NullDeref | Some a \<Rightarrow> rd a i)"

text \<open>
  \<^verbatim>\<open>execvp(p[0], p)\<close>. It returns (with -1) only when the program could not be started;
  otherwise the process image is replaced.
\<close>

definition execvp :: "machine \<Rightarrow> cell list option \<Rightarrow> event list \<times> (halt + unit)" where
  "execvp m p =
     (case rdp p 0 of
        Inl e \<Rightarrow> ([], Inl e)
      | Inr c \<Rightarrow>
          (case c of
             Str file \<Rightarrow> ([Execvp file p], if can_exec m file then Inl Replaced else Inr ())
           | Null \<Rightarrow> ([], Inl NullDeref)
           | Junk \<Rightarrow> ([], Inl Indeterminate)))"

text \<open>
  The redirection of the standard output in a child:
  \<^verbatim>\<open>if (output_file != NULL) { out = open(...); close(1); dup(out); close(out); }\<close>
\<close>

definition redirect :: "machine \<Rightarrow> cell \<Rightarrow> event list" where
  "redirect m output_file =
     (if output_file \<noteq> Null
      then [Open output_file, Close 1, Dup (open_fd m), Close (open_fd m)]
      else [])"

text \<open>
  \<^verbatim>\<open>execute_external\<close>, in the process where \<^verbatim>\<open>fork\<close> returned \<open>pid\<close>: the calls the
  process makes and how the function ends.
\<close>

definition execute_external ::
  "machine \<Rightarrow> int \<Rightarrow> cell list \<Rightarrow> int \<Rightarrow> cell \<Rightarrow> event list \<times> (halt + unit)" where
  "execute_external m pid a block output_file =
     (if pid < 0 then ([Fork], Inl (Exit ''unable to fork\<newline>'' 1))
      else if pid = 0
      then (case execvp m (Some a) of
              (evs, Inl e) \<Rightarrow> ([Fork] @ redirect m output_file @ evs, Inl e)
            | (evs, Inr u) \<Rightarrow>
                ([Fork] @ redirect m output_file @ evs,
                 Inl (Exit ''unable to execute command\<newline>'' 1)))
      else if block = 1 then ([Fork, Waitpid pid], Inr ())
      else ([Fork], Inr ()))"

text \<open>
  Lines 427 to 508 of \<^verbatim>\<open>execute_external_pipe\<close>, in the process where the first
  \<^verbatim>\<open>fork\<close> returned \<open>pid1\<close> and the second, when the process reaches it, \<open>pid2\<close>. The
  test after the second \<^verbatim>\<open>fork\<close> is the source's: \<^verbatim>\<open>if (pid1 < 0)\<close>.
\<close>

definition execute_external_pipe_run ::
  "machine \<Rightarrow> int \<Rightarrow> int \<Rightarrow> cell list option \<Rightarrow> cell list option \<Rightarrow> int \<Rightarrow> cell
     \<Rightarrow> event list \<times> (halt + unit)" where
  "execute_external_pipe_run m pid1 pid2 pipe_left pipe_right block output_file =
     (if pid1 < 0 then ([Pipe, Fork], Inl (Exit ''unable to fork first child\<newline>'' 1))
      else if pid1 = 0
      then (case execvp m pipe_left of
              (evs, Inl e) \<Rightarrow>
                ([Pipe, Fork, Close (pipe_rd m), Dup2 (pipe_wr m) 1] @ evs, Inl e)
            | (evs, Inr u) \<Rightarrow>
                ([Pipe, Fork, Close (pipe_rd m), Dup2 (pipe_wr m) 1] @ evs,
                 Inl (Exit ''unable to execute command\<newline>'' 1)))
      else if pid1 < 0
      then ([Pipe, Fork, Fork], Inl (Exit ''unable to fork second child\<newline>'' 1))
      else if pid2 = 0
      then (case execvp m pipe_right of
              (evs, Inl e) \<Rightarrow>
                ([Pipe, Fork, Fork, Close (pipe_wr m)] @ redirect m output_file
                   @ [Dup2 (pipe_rd m) 0] @ evs, Inl e)
            | (evs, Inr u) \<Rightarrow>
                ([Pipe, Fork, Fork, Close (pipe_wr m)] @ redirect m output_file
                   @ [Dup2 (pipe_rd m) 0] @ evs,
                 Inl (Exit ''unable to execute command\<newline>'' 1)))
      else ([Pipe, Fork, Fork, Close (pipe_rd m), Close (pipe_wr m), Waitpid pid1, Waitpid pid2],
            Inr ()))"

text \<open>\<^verbatim>\<open>execute_external_pipe\<close>: the split, then the two children.\<close>

definition execute_external_pipe ::
  "machine \<Rightarrow> int \<Rightarrow> int \<Rightarrow> cell list \<Rightarrow> int \<Rightarrow> cell \<Rightarrow> int \<Rightarrow> event list \<times> (halt + unit)" where
  "execute_external_pipe m pid1 pid2 a block output_file pipe_index =
     (case execute_external_pipe_split m a pipe_index of
        Inl e \<Rightarrow> ([], Inl e)
      | Inr (pipe_left, pipe_right) \<Rightarrow>
          execute_external_pipe_run m pid1 pid2 pipe_left pipe_right block output_file)"

section \<open>Reading a command line\<close>

text \<open>
  The standard input is the list of the bytes not read yet. \<^verbatim>\<open>getchar\<close> returns the next
  byte as a value from 0 to 255, or \<^verbatim>\<open>EOF\<close> (-1) at the end of the input, which it
  reports again on every later call.
\<close>

definition EOF :: int where
  "EOF = - 1"

definition getchar :: "char list \<Rightarrow> int \<times> char list" where
  "getchar s = (case s of [] \<Rightarrow> (EOF, []) | ch # s' \<Rightarrow> (int (of_char ch), s'))"

text \<open>
  \<^verbatim>\<open>read_command_line\<close> stores the result of \<^verbatim>\<open>getchar\<close> in a \<^verbatim>\<open>char\<close>. The type is
  taken as a signed 8-bit integer, as on x86 and x86-64: the conversion keeps the low 8
  bits, and the comparisons with \<^verbatim>\<open>EOF\<close> and \<^verbatim>\<open>'\n'\<close> promote the \<^verbatim>\<open>char\<close> to \<^verbatim>\<open>int\<close>
  by its sign.
\<close>

definition to_char :: "int \<Rightarrow> 8 word" where
  "to_char r = word_of_int r"

definition byte_of :: "8 word \<Rightarrow> char" where
  "byte_of c = char_of (unat c)"

text \<open>
  A buffer of characters: the list of its bytes, \<open>None\<close> for a byte never written.
\<close>

definition wrc :: "char option list \<Rightarrow> nat \<Rightarrow> char \<Rightarrow> halt + char option list" where
  "wrc b i c = (if i < length b then Inr (b[i := Some c]) else Inl OutOfBounds)"

text \<open>
  \<^verbatim>\<open>realloc(buffer, n)\<close>: \<open>None\<close> when the request is refused, otherwise a buffer of
  \<open>n\<close> bytes that starts with the old content.
\<close>

definition realloc_chars :: "machine \<Rightarrow> char option list \<Rightarrow> nat \<Rightarrow> char option list option" where
  "realloc_chars m b n =
     (if alloc_ok m n then Some (take n b @ replicate (n - length b) None) else None)"

definition INT_MAX :: int where
  "INT_MAX = 2147483647"

definition SH_CL_BUFSIZE :: nat where
  "SH_CL_BUFSIZE = 512"

text \<open>
  The \<^verbatim>\<open>while (1)\<close> loop of \<^verbatim>\<open>read_command_line\<close>. \<^verbatim>\<open>index\<close> and \<^verbatim>\<open>bufsize\<close> are
  \<^verbatim>\<open>int\<close>s that only grow: they are natural numbers here, and an increment beyond
  \<^verbatim>\<open>INT_MAX\<close> is a halt. The result is the buffer and the input left unread.
\<close>

function read_loop ::
  "machine \<Rightarrow> char option list \<Rightarrow> nat \<Rightarrow> nat \<Rightarrow> char list \<Rightarrow> halt + (char option list \<times> char list)" where
  "read_loop m buffer bufsize index s =
     (case getchar s of
        (r, s') \<Rightarrow>
          if sint (to_char r) = EOF \<or> sint (to_char r) = 10
          then (case wrc buffer index (CHR 0x00) of
                  Inl e \<Rightarrow> Inl e
                | Inr b \<Rightarrow> Inr (b, s'))
          else (case wrc buffer index (byte_of (to_char r)) of
                  Inl e \<Rightarrow> Inl e
                | Inr b \<Rightarrow>
                    if INT_MAX < int index + 1 then Inl IntOverflow
                    else if bufsize \<le> index + 1
                    then (if INT_MAX < int bufsize + int SH_CL_BUFSIZE then Inl IntOverflow
                          else (case realloc_chars m b (bufsize + SH_CL_BUFSIZE) of
                                  None \<Rightarrow> Inl (Exit ''unable to allocate memory\<newline>'' 1)
                                | Some b' \<Rightarrow>
                                    read_loop m b' (bufsize + SH_CL_BUFSIZE) (index + 1) s'))
                    else read_loop m b bufsize (index + 1) s'))"
  by pat_completeness auto
termination
  by (relation "measure (\<lambda>(m, buffer, bufsize, index, s). length s)")
    (auto simp: getchar_def to_char_def EOF_def split: list.splits)

declare read_loop.simps [simp del]

definition read_command_line :: "machine \<Rightarrow> char list \<Rightarrow> halt + (char option list \<times> char list)" where
  "read_command_line m s =
     (if alloc_ok m SH_CL_BUFSIZE
      then read_loop m (replicate SH_CL_BUFSIZE None) SH_CL_BUFSIZE 0 s
      else Inl (Exit ''unable to allocate memory\<newline>'' 1))"

text \<open>
  The bytes that end a line for \<^verbatim>\<open>read_command_line\<close>, and the line at the head of an
  input: its bytes before the first of them.
\<close>

definition line_end :: "char \<Rightarrow> bool" where
  "line_end ch = (ch = CHR 0x0A \<or> ch = CHR 0xFF)"

definition first_line :: "char list \<Rightarrow> char list" where
  "first_line s = takeWhile (\<lambda>ch. \<not> line_end ch) s"

section \<open>The tokenizer\<close>

text \<open>
  The string a buffer holds for the C library: its bytes before the first NUL. Reading
  reaches a byte never written, or the end of the buffer, when no NUL comes first.
\<close>

fun c_string :: "char option list \<Rightarrow> halt + string" where
  "c_string [] = Inl OutOfBounds"
| "c_string (None # b) = Inl Indeterminate"
| "c_string (Some c # b) =
     (if c = CHR 0x00 then Inr []
      else (case c_string b of Inl e \<Rightarrow> Inl e | Inr t \<Rightarrow> Inr (c # t)))"

text \<open>
  \<^verbatim>\<open>strtok\<close> of the C library with the delimiter string \<^verbatim>\<open>" "\<close>, on the part of the line
  it has not consumed yet: it skips the leading spaces; if nothing is left it returns
  NULL (\<open>None\<close>); otherwise the token runs to the next space or to the end, and the
  scan is saved behind that space.
\<close>

definition strtok :: "string \<Rightarrow> (string \<times> string) option" where
  "strtok s =
     (case dropWhile (\<lambda>c. c = CHR '' '') s of
        [] \<Rightarrow> None
      | c # cs \<Rightarrow>
          Some (takeWhile (\<lambda>x. x \<noteq> CHR '' '') (c # cs),
                drop 1 (dropWhile (\<lambda>x. x \<noteq> CHR '' '') (c # cs))))"

definition SH_ARG_BUFSIZE :: nat where
  "SH_ARG_BUFSIZE = 32"

text \<open>
  \<^verbatim>\<open>realloc(tokens, bufsize)\<close> as the source calls it: the new size is \<open>bufsize\<close> bytes,
  not \<open>bufsize\<close> pointers, so the array keeps \<open>bufsize div ptr_size\<close> slots.
\<close>

definition realloc_cells :: "machine \<Rightarrow> cell list \<Rightarrow> nat \<Rightarrow> cell list option" where
  "realloc_cells m a n =
     (if alloc_ok m n
      then Some (take (n div ptr_size m) a @ replicate (n div ptr_size m - length a) Junk)
      else None)"

text \<open>
  The \<^verbatim>\<open>while (token != NULL)\<close> loop of \<^verbatim>\<open>parse_command_line\<close> and the terminator
  written after it. \<open>token\<close> is the result of the last call of \<^verbatim>\<open>strtok\<close>.
\<close>

function parse_loop ::
  "machine \<Rightarrow> cell list \<Rightarrow> nat \<Rightarrow> nat \<Rightarrow> (string \<times> string) option \<Rightarrow> halt + cell list" where
  "parse_loop m tokens bufsize index token =
     (case token of
        None \<Rightarrow> wr tokens (int index) Null
      | Some (t, saved) \<Rightarrow>
          (case wr tokens (int index) (Str t) of
             Inl e \<Rightarrow> Inl e
           | Inr tokens1 \<Rightarrow>
               if bufsize \<le> index + 1
               then (case realloc_cells m tokens1 (bufsize + SH_ARG_BUFSIZE) of
                       None \<Rightarrow> Inl (Exit ''unable to allocate memory\<newline>'' 1)
                     | Some tokens2 \<Rightarrow>
                         parse_loop m tokens2 (bufsize + SH_ARG_BUFSIZE) (index + 1) (strtok saved))
               else parse_loop m tokens1 bufsize (index + 1) (strtok saved)))"
  by pat_completeness auto
termination
proof (relation "measure (\<lambda>(m, tokens, bufsize, index, token).
    case token of None \<Rightarrow> 0 | Some (t, saved) \<Rightarrow> Suc (length saved))")
  have shorter: "length saved' < length saved" if "strtok saved = Some (t', saved')"
    for saved t' saved'
  proof -
    from that obtain c cs where d: "dropWhile (\<lambda>c. c = CHR '' '') saved = c # cs"
      and s': "saved' = drop 1 (dropWhile (\<lambda>x. x \<noteq> CHR '' '') (c # cs))"
      by (auto simp: strtok_def split: list.splits)
    from d have "c \<noteq> CHR '' ''" using hd_dropWhile [of "\<lambda>c. c = CHR '' ''" saved] by auto
    then have "length saved' \<le> length cs"
      using length_dropWhile_le [of "\<lambda>x. x \<noteq> CHR '' ''" cs] by (simp add: s')
    also have "\<dots> < length (dropWhile (\<lambda>c. c = CHR '' '') saved)" by (simp add: d)
    also have "\<dots> \<le> length saved" by (rule length_dropWhile_le)
    finally show ?thesis .
  qed
  show "wf (measure (\<lambda>(m, tokens, bufsize, index, token).
    case token of None \<Rightarrow> 0 | Some (t, saved) \<Rightarrow> Suc (length saved)))" by simp
  show "((m, tokens2, bufsize + SH_ARG_BUFSIZE, index + 1, strtok saved),
      (m, tokens, bufsize, index, token))
    \<in> measure (\<lambda>(m, tokens, bufsize, index, token).
        case token of None \<Rightarrow> 0 | Some (t, saved) \<Rightarrow> Suc (length saved))"
    if "token = Some x2" and "(t, saved) = x2"
    for m :: machine and tokens tokens2 :: "cell list" and bufsize index :: nat
      and token x2 t saved
    using that shorter [of saved] by (cases "strtok saved") auto
  show "((m, tokens1, bufsize, index + 1, strtok saved), (m, tokens, bufsize, index, token))
    \<in> measure (\<lambda>(m, tokens, bufsize, index, token).
        case token of None \<Rightarrow> 0 | Some (t, saved) \<Rightarrow> Suc (length saved))"
    if "token = Some x2" and "(t, saved) = x2"
    for m :: machine and tokens tokens1 :: "cell list" and bufsize index :: nat
      and token x2 t saved
    using that shorter [of saved] by (cases "strtok saved") auto
qed

declare parse_loop.simps [simp del]

text \<open>
  \<^verbatim>\<open>parse_command_line\<close> on the string its argument points to. The first allocation
  asks for \<open>32 * sizeof(char *)\<close> bytes and is tested.
\<close>

definition parse_command_line :: "machine \<Rightarrow> string \<Rightarrow> halt + cell list" where
  "parse_command_line m command_line =
     (case malloc_cells m (int SH_ARG_BUFSIZE) of
        None \<Rightarrow> Inl (Exit ''unable to allocate memory\<newline>'' 1)
      | Some tokens \<Rightarrow> parse_loop m tokens SH_ARG_BUFSIZE 0 (strtok command_line))"

text \<open>
  The tokenizer as the specification words it: the line is cut at every space, and the
  empty pieces that a run of spaces, a leading or a trailing space leave are dropped.
\<close>

fun pieces :: "string \<Rightarrow> string list" where
  "pieces [] = [[]]"
| "pieces (c # cs) =
     (if c = CHR '' '' then [] # pieces cs
      else (case pieces cs of [] \<Rightarrow> [[c]] | f # fs \<Rightarrow> (c # f) # fs))"

definition spec_tokens :: "string \<Rightarrow> string list" where
  "spec_tokens s = filter (\<lambda>t. t \<noteq> []) (pieces s)"

text \<open>The tokens that are still to come when \<^verbatim>\<open>strtok\<close> has returned \<open>token\<close>.\<close>

fun pending :: "(string \<times> string) option \<Rightarrow> string list" where
  "pending None = []"
| "pending (Some (t, saved)) = t # spec_tokens saved"

section \<open>The builtins, the dispatcher and the prompt loop\<close>

text \<open>
  The state of the shell process that the program changes: the input not read yet, the
  calls made and texts printed so far, the working directory, and the number of calls of
  \<^verbatim>\<open>fork\<close> so far.
\<close>

record world =
  stdin :: "char list"
  trace :: "event list"
  cwd :: string
  forks :: nat

text \<open>
  \<^verbatim>\<open>chdir(path)\<close>, where \<open>None\<close> is the NULL pointer \<^verbatim>\<open>getenv\<close> returns for an unset
  variable: the call fails and the working directory stays.
\<close>

definition chdir :: "machine \<Rightarrow> world \<Rightarrow> string option \<Rightarrow> int \<times> world" where
  "chdir m w path =
     (let w' = w\<lparr>trace := trace w @ [Chdir path]\<rparr> in
      case path of
        None \<Rightarrow> (- 1, w')
      | Some p \<Rightarrow>
          (case resolve m (cwd w) p of
             None \<Rightarrow> (- 1, w')
           | Some d \<Rightarrow> (0, w'\<lparr>cwd := d\<rparr>)))"

definition execute_cd :: "machine \<Rightarrow> world \<Rightarrow> cell list \<Rightarrow> halt + world" where
  "execute_cd m w a =
     (case rd a 1 of
        Inl e \<Rightarrow> Inl e
      | Inr c \<Rightarrow>
          (case c of
             Junk \<Rightarrow> Inl Indeterminate
           | Null \<Rightarrow> Inr (snd (chdir m w (home m)))
           | Str p \<Rightarrow>
               if p = ''~'' then Inr (snd (chdir m w (home m)))
               else (case chdir m w (Some p) of
                       (r, w') \<Rightarrow>
                         if r \<noteq> 0
                         then Inr (w'\<lparr>trace := trace w' @
                                [Print (''cd: '' @ p @ '': No such file or directory\<newline>'')]\<rparr>)
                         else Inr w')))"

definition execute_builtin :: "machine \<Rightarrow> world \<Rightarrow> cell list \<Rightarrow> halt + (int \<times> world)" where
  "execute_builtin m w a =
     (case rd a 0 of
        Inl e \<Rightarrow> Inl e
      | Inr c \<Rightarrow>
          (case strcmp0 c ''exit'' of
             Inl e \<Rightarrow> Inl e
           | Inr ex \<Rightarrow>
               if ex then Inr (1, w)
               else (case execute_cd m w a of Inl e \<Rightarrow> Inl e | Inr w' \<Rightarrow> Inr (0, w'))))"

text \<open>
  What a launcher did, added to the state of the process, when the launcher returns.
\<close>

definition launched :: "world \<Rightarrow> event list \<times> (halt + unit) \<Rightarrow> halt + (int \<times> world)" where
  "launched w r =
     (case r of
        (evs, Inl e) \<Rightarrow> Inl e
      | (evs, Inr u) \<Rightarrow>
          Inr (0, w\<lparr>trace := trace w @ evs, forks := forks w + length (filter (\<lambda>e. e = Fork) evs)\<rparr>))"

text \<open>
  \<^verbatim>\<open>execute_command_line\<close>: the return value (1 after \<^verbatim>\<open>exit\<close>, else 0) and the state
  of the process.
\<close>

definition execute_command_line :: "machine \<Rightarrow> world \<Rightarrow> cell list \<Rightarrow> halt + (int \<times> world)" where
  "execute_command_line m w a =
     (case rd a 0 of
        Inl e \<Rightarrow> Inl e
      | Inr c \<Rightarrow>
          if c = Null then Inr (0, w)
          else (case strcmp0 c ''cd'' of
                  Inl e \<Rightarrow> Inl e
                | Inr is_cd \<Rightarrow>
                    if is_cd then execute_builtin m w a
                    else (case strcmp0 c ''exit'' of
                            Inl e \<Rightarrow> Inl e
                          | Inr is_exit \<Rightarrow>
                              if is_exit then execute_builtin m w a
                              else (case classify a of
                                      Inl e \<Rightarrow> Inl e
                                    | Inr (block, output_file, pipe_index, a') \<Rightarrow>
                                        if pipe_index \<noteq> - 1
                                        then launched w
                                               (execute_external_pipe m (fork_pid m (forks w))
                                                  (fork_pid m (Suc (forks w))) a' block output_file
                                                  pipe_index)
                                        else launched w
                                               (execute_external m (fork_pid m (forks w)) a' block
                                                  output_file)))))"

text \<open>
  \<^verbatim>\<open>shell_loop\<close>. The loop has no bound of its own (at the end of the input every
  iteration reads an empty line), so the function takes the number of iterations it may
  run and answers \<open>None\<close> when they do not suffice. It returns when
  \<^verbatim>\<open>execute_command_line\<close> returned a status other than 0.
\<close>

fun shell_loop :: "nat \<Rightarrow> machine \<Rightarrow> world \<Rightarrow> (halt + world) option" where
  "shell_loop 0 m w = None"
| "shell_loop (Suc n) m w =
     (let w1 = w\<lparr>trace := trace w @ [Print ''$ '']\<rparr> in
      case read_command_line m (stdin w1) of
        Inl e \<Rightarrow> Some (Inl e)
      | Inr (command_line, s') \<Rightarrow>
          (case c_string command_line of
             Inl e \<Rightarrow> Some (Inl e)
           | Inr line \<Rightarrow>
               (case parse_command_line m line of
                  Inl e \<Rightarrow> Some (Inl e)
                | Inr command_line_args \<Rightarrow>
                    (case execute_command_line m (w1\<lparr>stdin := s'\<rparr>) command_line_args of
                       Inl e \<Rightarrow> Some (Inl e)
                     | Inr (exit_status, w2) \<Rightarrow>
                         if exit_status = 0 then shell_loop n m w2 else Some (Inr w2)))))"

definition banner :: "event list" where
  "banner =
     [Print ''$------------------------------------------------$\<newline>'',
      Print ''$              Welcome to my shell!              $\<newline>'',
      Print ''$                                                $\<newline>'',
      Print ''$             Author: Quintin Bucheit            $\<newline>'',
      Print ''$------------------------------------------------$\<newline>'']"

text \<open>\<^verbatim>\<open>main\<close>: the value it returns is the exit code of the process.\<close>

definition main :: "nat \<Rightarrow> machine \<Rightarrow> world \<Rightarrow> (halt + (int \<times> world)) option" where
  "main n m w =
     (case shell_loop n m (w\<lparr>trace := trace w @ banner\<rparr>) of
        None \<Rightarrow> None
      | Some (Inl e) \<Rightarrow> Some (Inl e)
      | Some (Inr w') \<Rightarrow> Some (Inr (0, w')))"

section \<open>Reading and writing the slots of an argument vector\<close>

lemma rd_argv_str:
  "i < length v \<Longrightarrow> rd (argv v rest) (int i) = Inr (Str (v ! i))"
  by (simp add: rd_def argv_def nth_append)

lemma rd_argv_null: "rd (argv v rest) (int (length v)) = Inr Null"
  by (simp add: rd_def argv_def nth_append)

lemma rd_nat:
  "rd a (int k) =
     (if k < length a
      then (case a ! k of Junk \<Rightarrow> Inl Indeterminate | Null \<Rightarrow> Inr Null | Str s \<Rightarrow> Inr (Str s))
      else Inl OutOfBounds)"
  by (simp add: rd_def)

lemma wr_nat:
  "wr a (int k) c = (if k < length a then Inr (a[k := c]) else Inl OutOfBounds)"
  by (simp add: wr_def)

lemma int_pred: "int (Suc j) - 1 = int j"
  by simp

text \<open>The inner loop of the output redirection, on the slots of an array.\<close>

lemma remove_two_stop:
  "remove_two (L @ Null # R) (Suc (length L)) = Inr (L @ Null # R)"
  by (subst remove_two.simps) (simp add: int_pred rd_nat)

lemma remove_two_step:
  "remove_two (L @ Str s # u # w # x # R) (Suc (length L)) =
     (case x of Junk \<Rightarrow> Inl Indeterminate
      | Null \<Rightarrow> remove_two ((L @ [Str s]) @ Null # w # x # R) (Suc (length (L @ [Str s])))
      | Str p \<Rightarrow> remove_two ((L @ [Str s]) @ Str p # w # x # R) (Suc (length (L @ [Str s]))))"
proof -
  let ?a = "L @ Str s # u # w # x # R"
  have r1: "rd ?a (int (Suc (length L)) - 1) = Inr (Str s)"
    by (simp add: rd_def nth_append)
  have e: "int (Suc (length L)) + 2 = int (length L + 3)" by simp
  have r2: "rd ?a (int (Suc (length L)) + 2) =
      (case x of Junk \<Rightarrow> Inl Indeterminate | Null \<Rightarrow> Inr Null | Str p \<Rightarrow> Inr (Str p))"
    unfolding e rd_nat by (simp add: nth_append)
  have w: "wr ?a (int (Suc (length L))) c = Inr (L @ Str s # c # w # x # R)" for c
    by (simp add: wr_nat list_update_append del: of_nat_Suc)
  show ?thesis
    apply (subst remove_two.simps)
    apply (simp only: r1 r2 w)
    apply (simp split: cell.split)
    done
qed

lemma remove_two_argv:
  "remove_two (L @ Str s # u # w # map Str post @ Null # rest) (Suc (length L)) =
     Inr (L @ Str s # map Str post @ Null # last (w # map Str post) # Null # rest)"
proof (induction post arbitrary: L s u w)
  case Nil
  show ?case
    using remove_two_stop [of "L @ [Str s]" "w # Null # rest"]
    by (simp add: remove_two_step)
next
  case (Cons p ps)
  show ?case
    using Cons [of "L @ [Str s]" p w "Str p"]
    by (simp add: remove_two_step)
qed

lemma remove_two_first: "remove_two a 0 = Inl OutOfBounds"
  by (subst remove_two.simps) (simp add: rd_def)

text \<open>The outer loop of the output redirection, on the array of a vector.\<close>

lemma output_redirection_from_skip:
  "i < length v \<Longrightarrow> \<not> is_redir (v ! i) \<Longrightarrow>
   output_redirection_from (argv v rest) i = output_redirection_from (argv v rest) (Suc i)"
  by (subst output_redirection_from.simps) (simp add: rd_argv_str strcmp0_def is_redir_def)

lemma output_redirection_from_prefix:
  assumes "\<forall>s\<in>set pre. \<not> is_redir s" and "k \<le> length pre"
  shows "output_redirection_from (argv (pre @ w) rest) 0 =
         output_redirection_from (argv (pre @ w) rest) k"
  using assms(2)
proof (induction k)
  case 0
  show ?case by simp
next
  case (Suc k)
  then have "k < length pre" by simp
  with assms(1) have "\<not> is_redir ((pre @ w) ! k)" by (simp add: nth_append)
  with Suc show ?case
    using output_redirection_from_skip [of k "pre @ w" rest] by simp
qed

lemma output_redirection_none:
  assumes "\<forall>s\<in>set v. \<not> is_redir s"
  shows "output_redirection (argv v rest) = Inr (Null, argv v rest)"
proof -
  have "output_redirection (argv v rest) = output_redirection_from (argv v rest) (length v)"
    using output_redirection_from_prefix [OF assms, of "length v" "[]" rest]
    by (simp add: output_redirection_def)
  also have "\<dots> = Inr (Null, argv v rest)"
    by (subst output_redirection_from.simps) (simp add: rd_argv_null)
  finally show ?thesis .
qed

lemma output_redirection_at:
  assumes "\<forall>s\<in>set pre. \<not> is_redir s"
  shows "output_redirection (argv (pre @ w) rest) =
         output_redirection_from (argv (pre @ w) rest) (length pre)"
  using output_redirection_from_prefix [OF assms, of "length pre" w rest]
  by (simp add: output_redirection_def)

lemma output_redirection_missing_file:
  assumes "\<forall>s\<in>set pre. \<not> is_redir s" and "is_redir op"
  shows "output_redirection (argv (pre @ [op]) rest) =
         Inl (Exit ''must specify output file\<newline>'' 1)"
proof -
  have r: "rd (argv (pre @ [op]) rest) (int (length pre)) = Inr (Str op)"
    using rd_argv_str [of "length pre" "pre @ [op]" rest] by simp
  have "int (length pre) + 1 = int (length (pre @ [op]))" by simp
  then have n: "rd (argv (pre @ [op]) rest) (int (length pre) + 1) = Inr Null"
    using rd_argv_null [of "pre @ [op]" rest] by (simp only:)
  show ?thesis
    unfolding output_redirection_at [OF assms(1)]
    apply (subst output_redirection_from.simps)
    apply (simp only: r n)
    using assms(2) apply (simp add: strcmp0_def is_redir_def)
    done
qed

lemma output_redirection_first:
  assumes "is_redir op"
  shows "output_redirection (argv (op # f # post) rest) = Inl OutOfBounds"
proof -
  have r: "rd (argv (op # f # post) rest) (int 0) = Inr (Str op)"
    using rd_argv_str [of 0 "op # f # post" rest] by simp
  have n: "rd (argv (op # f # post) rest) (int 0 + 1) = Inr (Str f)"
    using rd_argv_str [of 1 "op # f # post" rest] by simp
  show ?thesis
    unfolding output_redirection_def
    apply (subst output_redirection_from.simps)
    apply (simp only: r n remove_two_first)
    using assms apply (simp add: strcmp0_def is_redir_def)
    done
qed

lemma output_redirection_found:
  assumes "\<forall>s\<in>set pre. \<not> is_redir s" and "is_redir op" and "pre \<noteq> []"
  shows "output_redirection (argv (pre @ op # f # post) rest) =
         Inr (Str f, argv (pre @ post) (Str (last (f # post)) # Null # rest))"
proof -
  let ?a = "argv (pre @ op # f # post) rest"
  have r: "rd ?a (int (length pre)) = Inr (Str op)"
    using rd_argv_str [of "length pre" "pre @ op # f # post" rest] by simp
  have "int (length pre) + 1 = int (Suc (length pre))" by simp
  then have n: "rd ?a (int (length pre) + 1) = Inr (Str f)"
    using rd_argv_str [of "Suc (length pre)" "pre @ op # f # post" rest]
    by (simp only:) (simp add: nth_append)
  from assms(3) obtain p0 s where pre: "pre = p0 @ [s]"
    by (cases pre rule: rev_cases) auto
  have m: "remove_two ?a (length pre) =
      Inr (argv (pre @ post) (Str (last (f # post)) # Null # rest))"
    using remove_two_argv [of "map Str p0" s "Str op" "Str f" post rest]
    by (simp add: pre argv_def last_map)
  show ?thesis
    unfolding output_redirection_at [OF assms(1)]
    apply (subst output_redirection_from.simps)
    apply (simp only: r n m)
    using assms(2) apply (simp add: strcmp0_def is_redir_def)
    done
qed

lemma scan_null_argv:
  "i \<le> length v \<Longrightarrow> scan_null (argv v rest) i = Inr (length v)"
proof (induction "length v - i" arbitrary: i)
  case 0
  then have "i = length v" by simp
  then show ?case by (subst scan_null.simps) (simp add: rd_argv_null)
next
  case (Suc k)
  then have lt: "i < length v" by simp
  from Suc(2) have "k = length v - Suc i" by simp
  with lt have "scan_null (argv v rest) (Suc i) = Inr (length v)" by (intro Suc(1)) simp_all
  with lt show ?case by (subst scan_null.simps) (simp add: rd_argv_str)
qed

lemma vec_argv: "vec (argv v rest) = v"
  by (induction v) (simp_all add: argv_def)

section \<open>The background check\<close>

lemma block_check_snoc:
  "block_check (argv (v @ [x]) rest) =
     (if x = ''&'' then Inr (0, argv v (Null # rest)) else Inr (1, argv (v @ [x]) rest))"
proof -
  have idx: "int (length (v @ [x])) - 1 = int (length v)" by simp
  have r: "rd (argv (v @ [x]) rest) (int (length v)) = Inr (Str x)"
    using rd_argv_str [of "length v" "v @ [x]" rest] by simp
  have w: "wr (argv (v @ [x]) rest) (int (length v)) Null = Inr (argv v (Null # rest))"
    by (simp add: wr_nat argv_def list_update_append)
  have s: "scan_null (argv (v @ [x]) rest) 0 = Inr (length (v @ [x]))"
    by (rule scan_null_argv) simp
  show ?thesis
    unfolding block_check_def s sum.case idx r w by (simp add: strcmp0_def)
qed

text \<open>
  C6. For every non-empty argument vector, whatever slots follow its terminator,
  \<^verbatim>\<open>block_check\<close> answers 0 (background) and overwrites the last argument with NULL
  exactly when the last argument is \<^verbatim>\<open>&\<close>; otherwise it answers 1 (the shell blocks)
  and leaves the array as it was.
\<close>

theorem block_check_background:
  assumes "v \<noteq> []"
  shows "block_check (argv v rest) =
           (if last v = ''&'' then Inr (0, argv (butlast v) (Null # rest))
            else Inr (1, argv v rest))"
proof -
  from assms have v: "butlast v @ [last v] = v" by simp
  show ?thesis
    using block_check_snoc [of "butlast v" "last v" rest] by (simp only: v)
qed

theorem block_check_background_witness:
  "block_check (argv [''sleep'', ''5'', ''&''] []) = Inr (0, argv [''sleep'', ''5''] [Null])
   \<and> vec (argv [''sleep'', ''5''] [Null]) = [''sleep'', ''5'']
   \<and> block_check (argv [''sleep'', ''5''] []) = Inr (1, argv [''sleep'', ''5''] [])"
  using block_check_background [of "[''sleep'', ''5'', ''&'']" "[]"]
    block_check_background [of "[''sleep'', ''5'']" "[]"]
  by (simp add: argv_def)

section \<open>Output redirection and the state of the vector after classification\<close>

lemma block_check_empty: "block_check (argv [] rest) = Inl OutOfBounds"
  using scan_null_argv [of 0 "[]" rest] by (simp add: block_check_def rd_def)

text \<open>
  C4, at the input that shows the defect. When the redirection operator is element 0
  of the vector (the line \<^verbatim>\<open>> out ls\<close>), the removal loop starts at \<open>j = 0\<close> and its test
  reads \<^verbatim>\<open>command_line_args[-1]\<close>, the slot before the array: the function leaves defined
  behaviour instead of returning the file name and the vector without the two tokens.
  Wherever the operator stands later, \<open>output_redirection_found\<close>,
  \<open>output_redirection_none\<close> and \<open>output_redirection_missing_file\<close> above give what the
  specification says.
\<close>

theorem output_redirection_operator_first:
  "output_redirection (argv [''>'', ''out'', ''ls''] rest) = Inl OutOfBounds"
  by (rule output_redirection_first) (simp add: is_redir_def)

subsection \<open>The pipe check, and when the three checks return\<close>

lemma pipe_check_from_skip:
  "i < length v \<Longrightarrow> v ! i \<noteq> ''|'' \<Longrightarrow>
   pipe_check_from (argv v rest) i = pipe_check_from (argv v rest) (Suc i)"
  by (subst pipe_check_from.simps) (simp add: rd_argv_str strcmp0_def)

lemma pipe_check_from_found:
  "i < length v \<Longrightarrow> v ! i = ''|'' \<Longrightarrow> pipe_check_from (argv v rest) i = Inr (int i)"
  by (subst pipe_check_from.simps) (simp add: rd_argv_str strcmp0_def)

lemma pipe_check_from_prefix:
  assumes "''|'' \<notin> set left" and "k \<le> length left"
  shows "pipe_check_from (argv (left @ w) rest) 0 = pipe_check_from (argv (left @ w) rest) k"
  using assms(2)
proof (induction k)
  case 0
  show ?case by simp
next
  case (Suc k)
  then have k: "k < length left" by simp
  have "(left @ w) ! k = left ! k" using k by (simp add: nth_append)
  moreover have "left ! k \<in> set left" using k by simp
  ultimately have "(left @ w) ! k \<noteq> ''|''" using assms(1) by metis
  with Suc k show ?case
    using pipe_check_from_skip [of k "left @ w" rest] by simp
qed

lemma pipe_check_first:
  assumes "''|'' \<notin> set left"
  shows "pipe_check (argv (left @ ''|'' # right) rest) = Inr (int (length left))"
  using pipe_check_from_prefix [OF assms, of "length left" "''|'' # right" rest]
    pipe_check_from_found [of "length left" "left @ ''|'' # right" rest]
  by (simp add: pipe_check_def)

lemma pipe_check_none:
  assumes "''|'' \<notin> set v"
  shows "pipe_check (argv v rest) = Inr (- 1)"
proof -
  have "pipe_check (argv v rest) = pipe_check_from (argv v rest) (length v)"
    using pipe_check_from_prefix [OF assms, of "length v" "[]" rest] by (simp add: pipe_check_def)
  also have "\<dots> = Inr (- 1)"
    by (subst pipe_check_from.simps) (simp add: rd_argv_null)
  finally show ?thesis .
qed

lemma pipe_check_returns: "\<exists>k. pipe_check (argv r rest) = Inr k"
proof (cases "''|'' \<in> set r")
  case True
  then obtain left right where "r = left @ ''|'' # right" and "''|'' \<notin> set left"
    by (auto dest: split_list_first)
  then show ?thesis using pipe_check_first [of left right rest] by auto
next
  case False
  then show ?thesis using pipe_check_none [of r rest] by auto
qed

lemma output_redirection_cases:
  "output_redirection (argv w rest) =
     (case dropWhile (\<lambda>s. \<not> is_redir s) w of
        [] \<Rightarrow> Inr (Null, argv w rest)
      | [op] \<Rightarrow> Inl (Exit ''must specify output file\<newline>'' 1)
      | op # f # post \<Rightarrow>
          if takeWhile (\<lambda>s. \<not> is_redir s) w = [] then Inl OutOfBounds
          else Inr (Str f, argv (takeWhile (\<lambda>s. \<not> is_redir s) w @ post)
                     (Str (last (f # post)) # Null # rest)))"
proof -
  define pre where "pre = takeWhile (\<lambda>s. \<not> is_redir s) w"
  define d where "d = dropWhile (\<lambda>s. \<not> is_redir s) w"
  have w: "w = pre @ d" by (simp add: pre_def d_def)
  have pre: "\<forall>s\<in>set pre. \<not> is_redir s"
    by (auto simp: pre_def dest: set_takeWhileD)
  have "output_redirection (argv (pre @ d) rest) =
     (case d of
        [] \<Rightarrow> Inr (Null, argv (pre @ d) rest)
      | [op] \<Rightarrow> Inl (Exit ''must specify output file\<newline>'' 1)
      | op # f # post \<Rightarrow>
          if pre = [] then Inl OutOfBounds
          else Inr (Str f, argv (pre @ post) (Str (last (f # post)) # Null # rest)))"
  proof (cases d)
    case Nil
    have "output_redirection (argv pre rest) = Inr (Null, argv pre rest)"
      using pre by (rule output_redirection_none)
    then show ?thesis by (simp add: Nil)
  next
    case (Cons op tl)
    then have op: "is_redir op"
      using hd_dropWhile [of "\<lambda>s. \<not> is_redir s" w] by (auto simp: d_def)
    show ?thesis
    proof (cases tl)
      case Nil
      have "output_redirection (argv (pre @ [op]) rest) =
          Inl (Exit ''must specify output file\<newline>'' 1)"
        using pre op by (rule output_redirection_missing_file)
      then show ?thesis by (simp add: Cons Nil)
    next
      case tl: (Cons f post)
      show ?thesis
      proof (cases "pre = []")
        case True
        have "output_redirection (argv (op # f # post) rest) = Inl OutOfBounds"
          using op by (rule output_redirection_first)
        then show ?thesis by (simp add: Cons tl True)
      next
        case False
        have "output_redirection (argv (pre @ op # f # post) rest) =
            Inr (Str f, argv (pre @ post) (Str (last (f # post)) # Null # rest))"
          using pre op False by (rule output_redirection_found)
        then show ?thesis using False by (simp add: Cons tl)
      qed
    qed
  qed
  then show ?thesis unfolding w [symmetric] unfolding pre_def d_def .
qed

lemma classify_returns:
  "(\<exists>res. classify (argv v rest) = Inr res) =
     (v \<noteq> [] \<and> redirection_placed (without_background v))"
proof (cases "v = []")
  case True
  then show ?thesis by (simp add: classify_def block_check_empty)
next
  case ne: False
  define r where "r = (if last v = ''&'' then Null # rest else rest)"
  define w where "w = without_background v"
  define pre where "pre = takeWhile (\<lambda>s. \<not> is_redir s) w"
  define d where "d = dropWhile (\<lambda>s. \<not> is_redir s) w"
  from ne have vl: "butlast v @ [last v] = v" by simp
  have "block_check (argv v rest) =
      (if last v = ''&'' then Inr (0, argv (butlast v) (Null # rest)) else Inr (1, argv v rest))"
    using block_check_snoc [of "butlast v" "last v" rest] by (simp only: vl)
  then have bc: "block_check (argv v rest) = Inr (if last v = ''&'' then 0 else 1, argv w r)"
    using ne by (simp add: without_background_def r_def w_def)
  have oc: "output_redirection (argv w r) =
     (case d of
        [] \<Rightarrow> Inr (Null, argv w r)
      | [op] \<Rightarrow> Inl (Exit ''must specify output file\<newline>'' 1)
      | op # f # post \<Rightarrow>
          if pre = [] then Inl OutOfBounds
          else Inr (Str f, argv (pre @ post) (Str (last (f # post)) # Null # r)))"
    unfolding pre_def d_def by (rule output_redirection_cases)
  have rp: "redirection_placed w =
      (case d of [] \<Rightarrow> True | [op] \<Rightarrow> False | op # f # post \<Rightarrow> pre \<noteq> [])"
    unfolding pre_def d_def by (rule redirection_placed_def)
  have cl: "(\<exists>res. classify (argv v rest) = Inr res) =
      (\<exists>f a'. output_redirection (argv w r) = Inr (f, a'))"
  proof
    assume "\<exists>res. classify (argv v rest) = Inr res"
    then show "\<exists>f a'. output_redirection (argv w r) = Inr (f, a')"
      using bc by (auto simp: classify_def split: sum.splits prod.splits)
  next
    assume "\<exists>f a'. output_redirection (argv w r) = Inr (f, a')"
    then obtain f a' where o: "output_redirection (argv w r) = Inr (f, a')" by blast
    have "\<exists>r'. a' = argv (vec a') r'"
      using o oc by (cases d; cases "tl d") (auto simp: vec_argv split: if_splits list.splits)
    then obtain r' where "a' = argv (vec a') r'" ..
    then obtain k where "pipe_check a' = Inr k" using pipe_check_returns by metis
    with bc o show "\<exists>res. classify (argv v rest) = Inr res"
      by (simp add: classify_def)
  qed
  have "(\<exists>f a'. output_redirection (argv w r) = Inr (f, a')) = redirection_placed w"
    unfolding oc rp by (cases d; cases "tl d") (auto split: list.splits)
  with cl ne show ?thesis by (simp add: w_def)
qed

subsection \<open>The vector that classification leaves\<close>

lemma without_redirection_none:
  "\<forall>s\<in>set w. \<not> is_redir s \<Longrightarrow> without_redirection w = w"
  by (induction w) simp_all

lemma without_redirection_found:
  "\<forall>s\<in>set pre. \<not> is_redir s \<Longrightarrow> is_redir op \<Longrightarrow>
   without_redirection (pre @ op # f # post) = pre @ post"
  by (induction pre) simp_all

lemma ends_clean_vec: "ends_clean a = (\<not> ends_reserved (vec a))"
  by (cases "vec a") (simp_all add: ends_clean_def ends_reserved_def)

lemma output_redirection_vec:
  assumes res: "output_redirection (argv w rest) = Inr (file, a')"
  shows "vec a' = without_redirection w"
proof (cases "\<exists>s\<in>set w. is_redir s")
  case False
  then have none: "\<forall>s\<in>set w. \<not> is_redir s" by simp
  with res have "a' = argv w rest" by (simp add: output_redirection_none)
  with none show ?thesis by (simp add: vec_argv without_redirection_none)
next
  case True
  then obtain pre op tl where w: "w = pre @ op # tl" and op: "is_redir op"
    and pre: "\<forall>s\<in>set pre. \<not> is_redir s"
    by (auto dest!: split_list_first_prop)
  show ?thesis
  proof (cases tl)
    case Nil
    with res show ?thesis
      using output_redirection_missing_file [OF pre op, of rest] by (simp add: w)
  next
    case (Cons f post)
    show ?thesis
    proof (cases "pre = []")
      case True
      with res show ?thesis
        using output_redirection_first [OF op, of f post rest] by (simp add: w Cons)
    next
      case False
      with res have "vec a' = pre @ post"
        using output_redirection_found [OF pre op False, of f post rest]
        by (auto simp: w Cons vec_argv)
      then show ?thesis
        using without_redirection_found [OF pre op, of f post] by (simp add: w Cons)
    qed
  qed
qed

text \<open>
  C2, as the code has it. Whenever the three checks return (by \<open>classify_returns\<close>:
  the vector is not empty and its first redirection operator, if any, is not element 0
  and has an element after it), the array they leave holds exactly the input vector
  without one trailing \<^verbatim>\<open>&\<close> and without the first redirection operator and the
  element after it. So its last real element is a reserved token exactly when that
  shortened vector ends in one, and is none otherwise.
\<close>

theorem classify_result_vector:
  assumes res: "classify (argv v rest) = Inr (block, file, pipe_index, a')"
  shows "vec a' = without_redirection (without_background v)
         \<and> ends_clean a' = (\<not> ends_reserved (without_redirection (without_background v)))"
proof -
  have ne: "v \<noteq> []"
  proof
    assume "v = []"
    with res show False by (simp add: classify_def block_check_empty)
  qed
  define r where "r = (if last v = ''&'' then Null # rest else rest)"
  from ne have vl: "butlast v @ [last v] = v" by simp
  have "block_check (argv v rest) =
      (if last v = ''&'' then Inr (0, argv (butlast v) (Null # rest)) else Inr (1, argv v rest))"
    using block_check_snoc [of "butlast v" "last v" rest] by (simp only: vl)
  then have bc: "block_check (argv v rest) =
      Inr (if last v = ''&'' then 0 else 1, argv (without_background v) r)"
    using ne by (simp add: without_background_def r_def)
  from res bc obtain f where "output_redirection (argv (without_background v) r) = Inr (f, a')"
    by (auto simp: classify_def split: sum.splits prod.splits)
  then have "vec a' = without_redirection (without_background v)"
    by (rule output_redirection_vec)
  then show ?thesis by (simp add: ends_clean_vec)
qed

theorem classify_result_vector_witness:
  "classify (argv [''ls'', ''>'', ''|''] []) = Inr (1, Str ''|'', - 1, [Str ''ls'', Null, Str ''|'', Null])
   \<and> vec [Str ''ls'', Null, Str ''|'', Null] = [''ls'']
   \<and> without_redirection (without_background [''ls'', ''>'', ''|'']) = [''ls'']
   \<and> ends_clean [Str ''ls'', Null, Str ''|'', Null]
   \<and> classify (argv [''a'', ''|'', ''>'', ''out'', ''b'', ''&''] []) =
       Inr (0, Str ''out'', 1, [Str ''a'', Str ''|'', Str ''b'', Null, Str ''b'', Null, Null])
   \<and> vec [Str ''a'', Str ''|'', Str ''b'', Null, Str ''b'', Null, Null] = [''a'', ''|'', ''b'']
   \<and> without_redirection (without_background [''a'', ''|'', ''>'', ''out'', ''b'', ''&''])
       = [''a'', ''|'', ''b'']
   \<and> ends_clean [Str ''a'', Str ''|'', Str ''b'', Null, Str ''b'', Null, Null]"
proof -
  have h1: "classify (argv [''ls'', ''>'', ''|''] []) =
      Inr (1, Str ''|'', - 1, [Str ''ls'', Null, Str ''|'', Null])"
    by code_simp
  have h2: "classify (argv [''a'', ''|'', ''>'', ''out'', ''b'', ''&''] []) =
      Inr (0, Str ''out'', 1, [Str ''a'', Str ''|'', Str ''b'', Null, Str ''b'', Null, Null])"
    by code_simp
  have e: "ends_reserved [''ls''] = False" "ends_reserved [''a'', ''|'', ''b''] = False"
    by (simp_all add: ends_reserved_def reserved_def)
  from classify_result_vector [OF h1] classify_result_vector [OF h2] h1 h2 e
  show ?thesis by (simp add: without_background_def is_redir_def)
qed

text \<open>
  C2, as the specification states it, fails: only one trailing \<^verbatim>\<open>&\<close> is removed,
  only the first redirection operator with its file name, and the pipe token never, so
  a second \<^verbatim>\<open>&\<close>, a later operator or a pipe token can be left at the end.
\<close>

theorem classify_leaves_reserved_last:
  "classify (argv [''ls'', ''&'', ''&''] []) = Inr (0, Null, - 1, [Str ''ls'', Str ''&'', Null, Null])
   \<and> \<not> ends_clean [Str ''ls'', Str ''&'', Null, Null]
   \<and> classify (argv [''ls'', ''>'', ''a'', ''>''] []) = Inr (1, Str ''a'', - 1, [Str ''ls'', Str ''>'', Null, Str ''>'', Null])
   \<and> \<not> ends_clean [Str ''ls'', Str ''>'', Null, Str ''>'', Null]
   \<and> classify (argv [''ls'', ''|''] []) = Inr (1, Null, 1, [Str ''ls'', Str ''|'', Null])
   \<and> \<not> ends_clean [Str ''ls'', Str ''|'', Null]"
  by code_simp

section \<open>The split of the pipe launcher\<close>

lemma copy_left_first: "copy_left a pl 0 = Inl OutOfBounds"
  by (subst copy_left.simps) (simp add: rd_def)

lemma wr_pipe_token:
  "wr (argv (left @ ''|'' # right) rest) (int (length left)) Null =
     Inr (argv left (map Str right @ Null # rest))"
  by (simp add: wr_nat argv_def list_update_append)

lemma copy_right_argv:
  "copy_right (L @ map Str right @ Null # rest) (Some (ws @ replicate (length right) Junk))
     (length L) (length ws) =
   Inr (Some (ws @ map Str right), length ws + length right)"
proof (induction right arbitrary: L ws)
  case Nil
  show ?case by (subst copy_right.simps) (simp add: rd_nat)
next
  case (Cons x xs)
  have w: "wrp (Some (ws @ Junk # replicate (length xs) Junk)) (int (length ws)) (Str x) =
      Inr (Some (ws @ Str x # replicate (length xs) Junk))"
    by (simp add: wrp_def wr_nat list_update_append)
  show ?case
    using Cons [of "L @ [Str x]" "ws @ [Str x]"]
    by (subst copy_right.simps) (simp add: rd_nat w)
qed

lemma pipe_right_terminator:
  assumes "malloc_cells m (int (length right)) = Some pr"
  shows "copy_right (argv left (map Str right @ Null # rest)) (Some pr) (Suc (length left)) 0 =
           Inr (Some (map Str right), length right)
         \<and> wrp (Some (map Str right)) (int (length right) + 1) Null = Inl OutOfBounds"
proof -
  from assms have pr: "pr = replicate (length right) Junk"
    by (simp add: malloc_cells_def split: if_splits)
  have "copy_right ((map Str left @ [Null]) @ map Str right @ Null # rest)
      (Some ([] @ replicate (length right) Junk)) (length (map Str left @ [Null])) (length ([] :: cell list)) =
    Inr (Some ([] @ map Str right), length ([] :: cell list) + length right)"
    by (rule copy_right_argv)
  then show ?thesis by (simp add: pr argv_def wrp_def wr_def)
qed

lemma execute_external_pipe_split_halts:
  "\<exists>e. execute_external_pipe_split m a pipe_index = Inl e"
  by (simp add: execute_external_pipe_split_def copy_left_first split: sum.split)

lemma execute_external_pipe_split_argv:
  "execute_external_pipe_split m (argv (left @ ''|'' # right) rest) (int (length left)) =
     Inl OutOfBounds"
proof -
  have c: "count_command_line_args (argv (left @ ''|'' # right) rest) =
      Inr (length (left @ ''|'' # right))"
    unfolding count_command_line_args_def by (rule scan_null_argv) simp
  show ?thesis
    unfolding execute_external_pipe_split_def c
    by (simp add: wr_pipe_token copy_left_first)
qed

text \<open>
  C1, at the example of the specification. \<^verbatim>\<open>pipe_check\<close> finds the pipe token of
  \<^verbatim>\<open>ls | wc -l\<close> at index 1. The split then leaves defined behaviour: the first test of
  the left copy reads \<^verbatim>\<open>command_line_args[-1]\<close>. The copy of the right side is not
  terminated either: by \<open>pipe_right_terminator\<close> above the two slots of \<^verbatim>\<open>pipe_right\<close>
  receive \<^verbatim>\<open>wc\<close> and \<^verbatim>\<open>-l\<close>, and the NULL is then written at index \<open>j + 1 = 3\<close>, outside
  the allocation, with no NULL at index 2.
\<close>

theorem execute_external_pipe_split_example:
  "pipe_check (argv [''ls'', ''|'', ''wc'', ''-l''] rest) = Inr 1
   \<and> execute_external_pipe_split m (argv [''ls'', ''|'', ''wc'', ''-l''] rest) 1 = Inl OutOfBounds"
proof -
  have p: "pipe_check (argv [''ls'', ''|'', ''wc'', ''-l''] rest) = Inr 1"
    using pipe_check_first [of "[''ls'']" "[''wc'', ''-l'']" rest] by simp
  have c: "count_command_line_args (argv [''ls'', ''|'', ''wc'', ''-l''] rest) = Inr 4"
    using scan_null_argv [of 0 "[''ls'', ''|'', ''wc'', ''-l'']" rest]
    by (simp add: count_command_line_args_def)
  have w: "wr (argv [''ls'', ''|'', ''wc'', ''-l''] rest) 1 Null =
      Inr (argv [''ls''] (map Str [''wc'', ''-l''] @ Null # rest))"
    using wr_pipe_token [of "[''ls'']" "[''wc'', ''-l'']" rest] by simp
  show ?thesis
    by (simp add: p execute_external_pipe_split_def c w copy_left_first)
qed


section \<open>Process creation and waiting\<close>

lemma execute_external_pipe_first_fork_fails:
  "pid1 < 0 \<Longrightarrow>
   execute_external_pipe_run m pid1 pid2 pl pr block output_file =
     ([Pipe, Fork], Inl (Exit ''unable to fork first child\<newline>'' 1))"
  by (simp add: execute_external_pipe_run_def)

text \<open>
  C3, at the input that shows the defect. The first \<^verbatim>\<open>fork\<close> returns the child's
  identifier 1000 and the second \<^verbatim>\<open>fork\<close> fails with -1. The test after the second
  \<^verbatim>\<open>fork\<close> looks at \<^verbatim>\<open>pid1\<close> again, so nothing is printed and the shell does not
  exit: it closes the pipe, waits for the first child, calls \<^verbatim>\<open>waitpid(-1, ...)\<close> and
  returns to the prompt loop.
\<close>

theorem execute_external_pipe_second_fork_unchecked:
  "execute_external_pipe_run m 1000 (- 1) pl pr block output_file =
     ([Pipe, Fork, Fork, Close (pipe_rd m), Close (pipe_wr m), Waitpid 1000, Waitpid (- 1)],
      Inr ())"
  by (simp add: execute_external_pipe_run_def)

text \<open>
  What the two launchers do about waiting once they are past their \<^verbatim>\<open>fork\<close>s, in the
  parent: \<^verbatim>\<open>execute_external\<close> calls \<^verbatim>\<open>waitpid\<close> for its child exactly when the
  blocking flag is 1; lines 427 to 508 of \<^verbatim>\<open>execute_external_pipe\<close> wait for the first
  child and then for the second, whatever the flag is.
\<close>

lemma execute_external_waits:
  "0 < pid \<Longrightarrow>
   execute_external m pid a block output_file =
     (if block = 1 then ([Fork, Waitpid pid], Inr ()) else ([Fork], Inr ()))"
  by (simp add: execute_external_def)

lemma execute_external_pipe_run_waits:
  "0 < pid1 \<Longrightarrow> 0 < pid2 \<Longrightarrow>
   execute_external_pipe_run m pid1 pid2 pl pr block output_file =
     ([Pipe, Fork, Fork, Close (pipe_rd m), Close (pipe_wr m), Waitpid pid1, Waitpid pid2],
      Inr ())"
  by (simp add: execute_external_pipe_run_def)


section \<open>The line that is read\<close>

lemma to_char_of_char:
  "to_char (int (of_char ch)) = (of_nat (of_char ch) :: 8 word)"
  by (simp add: to_char_def)

lemma sint_to_char_eof: "sint (to_char EOF) = EOF"
  by (simp add: to_char_def EOF_def)

lemma sint_to_char_iff:
  "(sint (to_char (int (of_char ch))) = EOF) = (ch = CHR 0xFF)"
  "(sint (to_char (int (of_char ch))) = 10) = (ch = CHR 0x0A)"
proof -
  let ?w = "of_nat (of_char ch) :: 8 word"
  have "(sint ?w = - 1) = (sint ?w = sint (- 1 :: 8 word))" by simp
  also have "\<dots> = (?w = - 1)" by (simp only: word_eq_iff_signed [where ?'a = int, symmetric])
  also have "\<dots> = (?w = of_nat 255)"
  proof -
    have "(- 1 :: 8 word) = of_nat 255" by code_simp
    then show ?thesis by (simp only:)
  qed
  also have "\<dots> = ((of_char ch :: nat) mod 256 = 255 mod 256)"
    by (simp only: word_of_nat_eq_iff take_bit_eq_mod) simp
  also have "\<dots> = ((of_char ch :: nat) = of_char (CHR 0xFF))" by simp
  also have "\<dots> = (ch = CHR 0xFF)" by (simp only: of_char_eq_iff)
  finally show "(sint (to_char (int (of_char ch))) = EOF) = (ch = CHR 0xFF)"
    by (simp add: to_char_of_char EOF_def)
  have "(sint ?w = 10) = (sint ?w = sint (10 :: 8 word))" by simp
  also have "\<dots> = (?w = 10)" by (simp only: word_eq_iff_signed [where ?'a = int, symmetric])
  also have "\<dots> = (?w = of_nat 10)" by simp
  also have "\<dots> = ((of_char ch :: nat) mod 256 = 10 mod 256)"
    by (simp only: word_of_nat_eq_iff take_bit_eq_mod) simp
  also have "\<dots> = ((of_char ch :: nat) = of_char (CHR 0x0A))" by simp
  also have "\<dots> = (ch = CHR 0x0A)" by (simp only: of_char_eq_iff)
  finally show "(sint (to_char (int (of_char ch))) = 10) = (ch = CHR 0x0A)"
    by (simp add: to_char_of_char)
qed

lemma byte_of_to_char: "byte_of (to_char (int (of_char ch))) = ch"
  by (simp add: byte_of_def to_char_of_char unat_of_nat)


lemma read_loop_end:
  assumes "index < length buffer" and "s = [] \<or> line_end (hd s)"
  shows "read_loop m buffer bufsize index s =
         Inr (buffer[index := Some (CHR 0x00)], drop 1 s)"
proof (cases s)
  case Nil
  then show ?thesis
    using assms(1)
    by (subst read_loop.simps) (simp add: getchar_def sint_to_char_eof wrc_def)
next
  case (Cons ch s')
  with assms(2) have "line_end ch" by simp
  then have "sint (to_char (int (of_char ch))) = EOF \<or> sint (to_char (int (of_char ch))) = 10"
    by (auto simp: line_end_def sint_to_char_iff)
  then show ?thesis
    using assms(1) Cons
    by (subst read_loop.simps) (simp add: getchar_def wrc_def)
qed

lemma read_loop_store:
  assumes "index < length buffer" and "\<not> line_end ch" and "int index + 1 \<le> INT_MAX"
  shows "read_loop m buffer bufsize index (ch # s') =
         (if bufsize \<le> index + 1
          then (if INT_MAX < int bufsize + int SH_CL_BUFSIZE then Inl IntOverflow
                else (case realloc_chars m (buffer[index := Some ch]) (bufsize + SH_CL_BUFSIZE) of
                        None \<Rightarrow> Inl (Exit ''unable to allocate memory\<newline>'' 1)
                      | Some b' \<Rightarrow> read_loop m b' (bufsize + SH_CL_BUFSIZE) (index + 1) s'))
          else read_loop m (buffer[index := Some ch]) bufsize (index + 1) s')"
proof -
  from assms(2) have "\<not> (sint (to_char (int (of_char ch))) = EOF
      \<or> sint (to_char (int (of_char ch))) = 10)"
    by (simp add: line_end_def sint_to_char_iff)
  then show ?thesis
    using assms(1,3)
    by (subst read_loop.simps) (simp add: getchar_def wrc_def byte_of_to_char)
qed

lemma read_loop_line:
  assumes al: "\<And>n. alloc_ok m n"
    and len: "length buffer = bufsize"
    and idx: "index < bufsize"
    and pre: "take index buffer = map Some ws"
    and bound: "int (index + length (first_line s) + SH_CL_BUFSIZE) \<le> INT_MAX"
  shows "\<exists>b. read_loop m buffer bufsize index s = Inr (b, drop (Suc (length (first_line s))) s)
           \<and> take (Suc (index + length (first_line s))) b
               = map Some (ws @ first_line s) @ [Some (CHR 0x00)]"
  using len idx pre bound
proof (induction s arbitrary: buffer bufsize index ws)
  case Nil
  then have "read_loop m buffer bufsize index [] = Inr (buffer[index := Some (CHR 0x00)], [])"
    using read_loop_end [of index buffer "[]" m bufsize] by simp
  moreover have "take (Suc index) (buffer[index := Some (CHR 0x00)]) = map Some ws @ [Some (CHR 0x00)]"
    using Nil by (simp add: take_Suc_conv_app_nth)
  ultimately show ?case by (simp add: first_line_def)
next
  case (Cons ch s')
  show ?case
  proof (cases "line_end ch")
    case True
    then have "read_loop m buffer bufsize index (ch # s') = Inr (buffer[index := Some (CHR 0x00)], s')"
      using read_loop_end [of index buffer "ch # s'" m bufsize] Cons.prems by simp
    moreover have "take (Suc index) (buffer[index := Some (CHR 0x00)]) = map Some ws @ [Some (CHR 0x00)]"
      using Cons.prems by (simp add: take_Suc_conv_app_nth)
    ultimately show ?thesis using True by (simp add: first_line_def)
  next
    case False
    then have fl: "first_line (ch # s') = ch # first_line s'" by (simp add: first_line_def)
    let ?b = "buffer[index := Some ch]"
    have tk: "take (Suc index) ?b = map Some (ws @ [ch])"
      using Cons.prems by (simp add: take_Suc_conv_app_nth)
    have i1: "int index + 1 \<le> INT_MAX" using Cons.prems(4) by (simp add: fl)
    have bnd: "int (Suc index + length (first_line s') + SH_CL_BUFSIZE) \<le> INT_MAX"
      using Cons.prems(4) by (simp add: fl)
    show ?thesis
    proof (cases "bufsize \<le> index + 1")
      case grow: True
      let ?b' = "?b @ replicate SH_CL_BUFSIZE None"
      have ov: "\<not> INT_MAX < int bufsize + int SH_CL_BUFSIZE" using grow bnd by simp
      have re: "realloc_chars m ?b (bufsize + SH_CL_BUFSIZE) = Some ?b'"
        using al Cons.prems(1) by (simp add: realloc_chars_def)
      have st: "read_loop m buffer bufsize index (ch # s') =
          read_loop m ?b' (bufsize + SH_CL_BUFSIZE) (Suc index) s'"
        using read_loop_store [of index buffer ch m bufsize s'] False Cons.prems i1 grow ov re
        by simp
      have "\<exists>b. read_loop m ?b' (bufsize + SH_CL_BUFSIZE) (Suc index) s'
            = Inr (b, drop (Suc (length (first_line s'))) s')
          \<and> take (Suc (Suc index + length (first_line s'))) b
              = map Some ((ws @ [ch]) @ first_line s') @ [Some (CHR 0x00)]"
      proof (rule Cons.IH)
        show "length ?b' = bufsize + SH_CL_BUFSIZE" using Cons.prems(1) by simp
        show "Suc index < bufsize + SH_CL_BUFSIZE"
          using Cons.prems(2) by (simp add: SH_CL_BUFSIZE_def)
        show "take (Suc index) ?b' = map Some (ws @ [ch])"
          using tk Cons.prems(1,2) by simp
        show "int (Suc index + length (first_line s') + SH_CL_BUFSIZE) \<le> INT_MAX" by (rule bnd)
      qed
      then show ?thesis by (simp add: st fl)
    next
      case keep: False
      have st: "read_loop m buffer bufsize index (ch # s') = read_loop m ?b bufsize (Suc index) s'"
        using read_loop_store [of index buffer ch m bufsize s'] False Cons.prems i1 keep
        by simp
      have "\<exists>b. read_loop m ?b bufsize (Suc index) s'
            = Inr (b, drop (Suc (length (first_line s'))) s')
          \<and> take (Suc (Suc index + length (first_line s'))) b
              = map Some ((ws @ [ch]) @ first_line s') @ [Some (CHR 0x00)]"
      proof (rule Cons.IH)
        show "length ?b = bufsize" using Cons.prems(1) by simp
        show "Suc index < bufsize" using keep by simp
        show "take (Suc index) ?b = map Some (ws @ [ch])" by (rule tk)
        show "int (Suc index + length (first_line s') + SH_CL_BUFSIZE) \<le> INT_MAX" by (rule bnd)
      qed
      then show ?thesis by (simp add: st fl)
    qed
  qed
qed

text \<open>
  C10. When the allocator grants the requests and the line is short enough for the
  \<^verbatim>\<open>int\<close> counters, \<^verbatim>\<open>read_command_line\<close> returns a buffer that holds, NUL-terminated,
  exactly the bytes of the input before the first newline, byte 0xFF or end of input;
  that ending byte is consumed and the bytes after it stay unread. The byte 0xFF ends
  the line because the \<^verbatim>\<open>char\<close> it is stored in compares equal to \<^verbatim>\<open>EOF\<close>.
\<close>

theorem read_command_line_first_line:
  assumes "\<And>n. alloc_ok m n" and "int (length (first_line s) + SH_CL_BUFSIZE) \<le> INT_MAX"
  shows "\<exists>b. read_command_line m s = Inr (b, drop (Suc (length (first_line s))) s)
           \<and> take (Suc (length (first_line s))) b = map Some (first_line s) @ [Some (CHR 0x00)]"
  using read_loop_line [of m "replicate SH_CL_BUFSIZE None" SH_CL_BUFSIZE 0 "[]" s] assms
  by (simp add: read_command_line_def SH_CL_BUFSIZE_def)


theorem read_command_line_first_line_witness:
  "\<exists>b. read_command_line machine64 [CHR ''l'', CHR ''s'', CHR 0xFF, CHR ''w'', CHR ''c'', CHR 0x0A]
          = Inr (b, [CHR ''w'', CHR ''c'', CHR 0x0A])
       \<and> take 3 b = [Some (CHR ''l''), Some (CHR ''s''), Some (CHR 0x00)]"
  using read_command_line_first_line
    [of machine64 "[CHR ''l'', CHR ''s'', CHR 0xFF, CHR ''w'', CHR ''c'', CHR 0x0A]"]
  by (simp add: machine64_def first_line_def line_end_def SH_CL_BUFSIZE_def INT_MAX_def
      numeral_3_eq_3)

section \<open>The builtins\<close>

lemma rd_argv_0: "rd (argv (x # v) rest) 0 = Inr (Str x)"
  by (simp add: rd_def argv_def)

lemma rd_argv_1_null: "rd (argv [x] rest) 1 = Inr Null"
  by (simp add: rd_def argv_def)

lemma rd_argv_1_str: "rd (argv (x # y # v) rest) 1 = Inr (Str y)"
  by (simp add: rd_def argv_def)

text \<open>
  C9. When \<^verbatim>\<open>HOME\<close> names a directory, \<^verbatim>\<open>cd\<close> without argument and \<^verbatim>\<open>cd ~\<close> call
  \<^verbatim>\<open>chdir\<close> with the value of \<^verbatim>\<open>HOME\<close> and the working directory becomes that
  directory. With another path that \<^verbatim>\<open>chdir\<close> refuses, the shell prints
  \<^verbatim>\<open>cd: <path>: No such file or directory\<close>, the working directory stays, and the
  dispatcher returns 0: the prompt loop goes on.
\<close>

theorem cd_builtin:
  assumes "home m = Some h" and "resolve m (cwd w) h = Some d"
    and "p \<noteq> ''~''" and "resolve m (cwd w) p = None"
  shows "execute_command_line m w (argv [''cd''] rest) =
           Inr (0, w\<lparr>trace := trace w @ [Chdir (Some h)], cwd := d\<rparr>)
         \<and> execute_command_line m w (argv (''cd'' # ''~'' # v) rest) =
           Inr (0, w\<lparr>trace := trace w @ [Chdir (Some h)], cwd := d\<rparr>)
         \<and> execute_command_line m w (argv (''cd'' # p # v) rest) =
           Inr (0, w\<lparr>trace := trace w @ [Chdir (Some p),
                 Print (''cd: '' @ p @ '': No such file or directory\<newline>'')]\<rparr>)"
  using assms
  by (simp add: execute_command_line_def execute_builtin_def execute_cd_def chdir_def
      rd_argv_0 rd_argv_1_null rd_argv_1_str strcmp0_def)

theorem cd_builtin_witness:
  "execute_command_line machine64 \<lparr>stdin = [], trace = [], cwd = ''/tmp'', forks = 0\<rparr> (argv [''cd''] []) =
       Inr (0, \<lparr>stdin = [], trace = [Chdir (Some ''/home/user'')], cwd = ''/home/user'', forks = 0\<rparr>)
   \<and> execute_command_line machine64 \<lparr>stdin = [], trace = [], cwd = ''/tmp'', forks = 0\<rparr>
         (argv [''cd'', ''~''] []) =
       Inr (0, \<lparr>stdin = [], trace = [Chdir (Some ''/home/user'')], cwd = ''/home/user'', forks = 0\<rparr>)
   \<and> execute_command_line machine64 \<lparr>stdin = [], trace = [], cwd = ''/tmp'', forks = 0\<rparr>
         (argv [''cd'', ''/nonexistent''] []) =
       Inr (0, \<lparr>stdin = [], trace = [Chdir (Some ''/nonexistent''),
               Print ''cd: /nonexistent: No such file or directory\<newline>''],
             cwd = ''/tmp'', forks = 0\<rparr>)"
  using cd_builtin [of machine64 "''/home/user''" "\<lparr>stdin = [], trace = [], cwd = ''/tmp'', forks = 0\<rparr>"
      "''/home/user''" "''/nonexistent''" "[]" "[]"]
  by (simp add: machine64_def)

text \<open>
  C8. The dispatcher returns 1 for every vector whose element 0 is \<^verbatim>\<open>exit\<close>, whatever
  follows, and leaves the state of the process as it was: no \<^verbatim>\<open>fork\<close>, no call of a
  launcher. When the line read in an iteration of the prompt loop is parsed to such a
  vector, the loop returns in that iteration and \<^verbatim>\<open>main\<close> returns 0.
\<close>

theorem exit_builtin:
  assumes "read_command_line m (stdin w) = Inr (buffer, s')"
    and "c_string buffer = Inr line"
    and "parse_command_line m line = Inr (argv (''exit'' # v) rest)"
  shows "execute_command_line m w' (argv (''exit'' # v) rest) = Inr (1, w')
         \<and> shell_loop (Suc n) m w = Some (Inr (w\<lparr>trace := trace w @ [Print ''$ ''], stdin := s'\<rparr>))
         \<and> main (Suc n) m w =
             Some (Inr (0, w\<lparr>trace := trace w @ banner @ [Print ''$ ''], stdin := s'\<rparr>))"
proof -
  have e: "execute_command_line m u (argv (''exit'' # v) rest) = Inr (1, u)" for u
    by (simp add: execute_command_line_def execute_builtin_def rd_argv_0 strcmp0_def)
  have l: "shell_loop (Suc n) m u = Some (Inr (u\<lparr>trace := trace u @ [Print ''$ ''], stdin := s'\<rparr>))"
    if "stdin u = stdin w" for u
    using assms that by (simp add: e)
  show ?thesis
    using l [of w] l [of "w\<lparr>trace := trace w @ banner\<rparr>"] by (simp add: e main_def)
qed

theorem exit_builtin_witness:
  "execute_command_line machine64 \<lparr>stdin = ''ls\<newline>'', trace = [], cwd = ''/'', forks = 0\<rparr>
       (argv [''exit'', ''now''] (replicate 29 Junk)) =
     Inr (1, \<lparr>stdin = ''ls\<newline>'', trace = [], cwd = ''/'', forks = 0\<rparr>)
   \<and> shell_loop 1 machine64 \<lparr>stdin = ''exit now\<newline>ls\<newline>'', trace = [], cwd = ''/'', forks = 0\<rparr> =
     Some (Inr \<lparr>stdin = ''ls\<newline>'', trace = [Print ''$ ''], cwd = ''/'', forks = 0\<rparr>)
   \<and> main 1 machine64 \<lparr>stdin = ''exit now\<newline>ls\<newline>'', trace = [], cwd = ''/'', forks = 0\<rparr> =
     Some (Inr (0, \<lparr>stdin = ''ls\<newline>'', trace = banner @ [Print ''$ ''], cwd = ''/'', forks = 0\<rparr>))"
proof -
  let ?w = "\<lparr>stdin = ''exit now\<newline>ls\<newline>'', trace = [], cwd = ''/'', forks = 0\<rparr>"
  let ?b = "map Some ''exit now'' @ Some (CHR 0x00) # replicate 503 None"
  have r: "read_command_line machine64 (stdin ?w) = Inr (?b, ''ls\<newline>'')"
    by code_simp
  have c: "c_string ?b = Inr ''exit now''"
    by simp
  have p: "parse_command_line machine64 ''exit now'' = Inr (argv (''exit'' # [''now'']) (replicate 29 Junk))"
    by code_simp
  show ?thesis
    using exit_builtin [OF r c p, of "\<lparr>stdin = ''ls\<newline>'', trace = [], cwd = ''/'', forks = 0\<rparr>" 0]
    by simp
qed

text \<open>
  The dispatcher on the piped command line \<^verbatim>\<open>ls | wc\<close>: classification returns, the
  pipe launcher is called and the split ends the run before any process is created.
\<close>

lemma execute_command_line_pipe:
  "execute_command_line m w (argv [''ls'', ''|'', ''wc''] rest) = Inl OutOfBounds"
proof -
  have b: "block_check (argv [''ls'', ''|'', ''wc''] rest) = Inr (1, argv [''ls'', ''|'', ''wc''] rest)"
    using block_check_snoc [of "[''ls'', ''|'']" "''wc''" rest] by simp
  have o: "output_redirection (argv [''ls'', ''|'', ''wc''] rest) =
      Inr (Null, argv [''ls'', ''|'', ''wc''] rest)"
    by (rule output_redirection_none) (simp add: is_redir_def)
  have p: "pipe_check (argv [''ls'', ''|'', ''wc''] rest) = Inr 1"
    using pipe_check_first [of "[''ls'']" "[''wc'']" rest] by simp
  have c: "classify (argv [''ls'', ''|'', ''wc''] rest) =
      Inr (1, Null, 1, argv [''ls'', ''|'', ''wc''] rest)"
    by (simp add: classify_def b o p)
  have e: "execute_external_pipe m (fork_pid m (forks w)) (fork_pid m (Suc (forks w)))
      (argv [''ls'', ''|'', ''wc''] rest) 1 Null 1 = ([], Inl OutOfBounds)"
    using execute_external_pipe_split_argv [of m "[''ls'']" "[''wc'']" rest]
    by (simp add: execute_external_pipe_def)
  show ?thesis
    unfolding execute_command_line_def
    by (simp add: rd_argv_0 strcmp0_def c e launched_def)
qed

section \<open>The tokens of a line\<close>

text \<open>
  Repeated calls of \<^verbatim>\<open>strtok\<close> produce the tokens of the specification, in order.
\<close>

lemma pieces_decomp:
  "pieces s = takeWhile (\<lambda>x. x \<noteq> CHR '' '') s #
     (case dropWhile (\<lambda>x. x \<noteq> CHR '' '') s of [] \<Rightarrow> [] | x # r \<Rightarrow> pieces r)"
  by (induction s) auto

lemma spec_tokens_space: "spec_tokens (CHR '' '' # s) = spec_tokens s"
  by (simp add: spec_tokens_def)

lemma spec_tokens_skip: "spec_tokens (dropWhile (\<lambda>c. c = CHR '' '') s) = spec_tokens s"
  by (induction s) (simp_all add: spec_tokens_space)

lemma spec_tokens_word:
  assumes "c \<noteq> CHR '' ''"
  shows "spec_tokens (c # cs) =
         takeWhile (\<lambda>x. x \<noteq> CHR '' '') (c # cs) #
           spec_tokens (drop 1 (dropWhile (\<lambda>x. x \<noteq> CHR '' '') (c # cs)))"
proof -
  let ?P = "\<lambda>x. x \<noteq> CHR '' ''"
  define R where "R = (case dropWhile ?P cs of [] \<Rightarrow> [] | x # r \<Rightarrow> pieces r)"
  have p: "pieces cs = takeWhile ?P cs # R"
    unfolding R_def by (rule pieces_decomp)
  have "pieces (c # cs) = (c # takeWhile ?P cs) # R"
    using assms by (simp add: p)
  then have 1: "spec_tokens (c # cs) = (c # takeWhile ?P cs) # filter (\<lambda>t. t \<noteq> []) R"
    by (simp add: spec_tokens_def)
  have 2: "filter (\<lambda>t. t \<noteq> []) R = spec_tokens (drop 1 (dropWhile ?P cs))"
  proof (cases "dropWhile ?P cs")
    case Nil
    have "R = []" unfolding R_def Nil by simp
    moreover have "spec_tokens (drop 1 (dropWhile ?P cs)) = []"
      unfolding Nil by (simp add: spec_tokens_def)
    ultimately show ?thesis by simp
  next
    case (Cons x r)
    have "R = pieces r" unfolding R_def Cons by simp
    moreover have "spec_tokens (drop 1 (dropWhile ?P cs)) = spec_tokens r"
      unfolding Cons by simp
    ultimately show ?thesis by (simp add: spec_tokens_def)
  qed
  show ?thesis using assms 1 2 by simp
qed

lemma pending_strtok: "pending (strtok s) = spec_tokens s"
proof (cases "dropWhile (\<lambda>c. c = CHR '' '') s")
  case Nil
  have "spec_tokens (dropWhile (\<lambda>c. c = CHR '' '') s) = spec_tokens s"
    by (rule spec_tokens_skip)
  then have "spec_tokens s = []" unfolding Nil by (simp add: spec_tokens_def)
  moreover have "strtok s = None" unfolding strtok_def Nil by simp
  ultimately show ?thesis by simp
next
  case (Cons c cs)
  then have "c \<noteq> CHR '' ''" using hd_dropWhile [of "\<lambda>c. c = CHR '' ''" s] by auto
  then have "spec_tokens (c # cs) =
         takeWhile (\<lambda>x. x \<noteq> CHR '' '') (c # cs) #
           spec_tokens (drop 1 (dropWhile (\<lambda>x. x \<noteq> CHR '' '') (c # cs)))"
    by (rule spec_tokens_word)
  moreover have "spec_tokens (dropWhile (\<lambda>c. c = CHR '' '') s) = spec_tokens s"
    by (rule spec_tokens_skip)
  moreover have "strtok s = Some (takeWhile (\<lambda>x. x \<noteq> CHR '' '') (c # cs),
      drop 1 (dropWhile (\<lambda>x. x \<noteq> CHR '' '') (c # cs)))"
    unfolding strtok_def Cons by simp
  ultimately show ?thesis unfolding Cons by simp
qed

text \<open>
  As long as fewer than 32 tokens come, \<^verbatim>\<open>parse_command_line\<close> returns the array that
  holds them: the refinement the specification asks for.
\<close>

lemma parse_loop_tokens:
  assumes "pending token = ts" and "length ws + length ts < bufsize"
    and "length ts < length junk"
  shows "parse_loop m (map Str ws @ junk) bufsize (length ws) token =
         Inr (map Str (ws @ ts) @ Null # drop (Suc (length ts)) junk)"
  using assms
proof (induction ts arbitrary: ws junk token)
  case Nil
  then have t: "token = None" by (cases token) auto
  from Nil obtain j js where j: "junk = j # js" by (cases junk) auto
  show ?case
    by (subst parse_loop.simps) (simp add: t j wr_nat list_update_append)
next
  case (Cons t ts)
  then obtain saved where tok: "token = Some (t, saved)" and sv: "spec_tokens saved = ts"
    by (cases token) auto
  from Cons.prems obtain j js where j: "junk = j # js" by (cases junk) auto
  have w: "wr (map Str ws @ j # js) (int (length ws)) (Str t) = Inr (map Str ws @ Str t # js)"
    by (simp add: wr_nat list_update_append)
  have "parse_loop m (map Str (ws @ [t]) @ js) bufsize (length (ws @ [t])) (strtok saved) =
      Inr (map Str ((ws @ [t]) @ ts) @ Null # drop (Suc (length ts)) js)"
    using Cons.prems by (intro Cons.IH) (simp_all add: pending_strtok sv j)
  then show ?case
    using Cons.prems(2)
    by (subst parse_loop.simps) (simp add: tok w j)
qed

lemma parse_command_line_tokens:
  assumes "alloc_ok m (SH_ARG_BUFSIZE * ptr_size m)"
    and "length (spec_tokens line) < SH_ARG_BUFSIZE"
  shows "parse_command_line m line =
         Inr (argv (spec_tokens line) (replicate (31 - length (spec_tokens line)) Junk))"
proof -
  have "parse_loop m (map Str [] @ replicate 32 Junk) 32 (length ([] :: string list)) (strtok line) =
      Inr (map Str ([] @ spec_tokens line) @ Null #
        drop (Suc (length (spec_tokens line))) (replicate 32 Junk))"
    using assms(2) by (intro parse_loop_tokens) (simp_all add: pending_strtok SH_ARG_BUFSIZE_def)
  with assms show ?thesis
    by (simp add: parse_command_line_def malloc_cells_def SH_ARG_BUFSIZE_def argv_def)
qed

text \<open>
  With 32 tokens or more, on any machine whose pointers have 2 bytes or more, it never
  returns: the array of 32 slots is reallocated to 64 bytes and the next store, at index
  32, lies outside it.
\<close>

lemma parse_loop_full:
  assumes "length tokens \<le> index"
  shows "\<exists>e. parse_loop m tokens bufsize index token = Inl e"
  using assms
  by (subst parse_loop.simps) (simp add: wr_nat split: option.split)

lemma parse_loop_overflow:
  assumes "pending token = ts" and "length ws + length junk = 32"
    and "32 \<le> length ws + length ts" and "2 \<le> ptr_size m"
  shows "\<exists>e. parse_loop m (map Str ws @ junk) 32 (length ws) token = Inl e"
  using assms(1-3)
proof (induction ts arbitrary: ws junk token)
  case Nil
  then show ?case by (intro parse_loop_full) simp
next
  case (Cons t ts)
  then obtain saved where tok: "token = Some (t, saved)" and sv: "spec_tokens saved = ts"
    by (cases token) auto
  show ?case
  proof (cases junk)
    case Nil
    then show ?thesis by (intro parse_loop_full) simp
  next
    case jn: (Cons j js)
    have w: "wr (map Str ws @ j # js) (int (length ws)) (Str t) = Inr (map Str ws @ Str t # js)"
      by (simp add: wr_nat list_update_append)
    have step: "parse_loop m (map Str ws @ j # js) 32 (length ws) token =
        (if 32 \<le> length ws + 1
         then (case realloc_cells m (map Str ws @ Str t # js) (32 + SH_ARG_BUFSIZE) of
                 None \<Rightarrow> Inl (Exit ''unable to allocate memory\<newline>'' 1)
               | Some tokens2 \<Rightarrow>
                   parse_loop m tokens2 (32 + SH_ARG_BUFSIZE) (length ws + 1) (strtok saved))
         else parse_loop m (map Str ws @ Str t # js) 32 (length ws + 1) (strtok saved))"
      by (subst parse_loop.simps) (simp add: tok w)
    show ?thesis
    proof (cases "js = []")
      case True
      with Cons.prems(2) jn have full: "length ws = 31" by simp
      have "64 div ptr_size m \<le> 64 div 2" using assms(4) by (intro div_le_mono2) simp_all
      then have small: "64 div ptr_size m \<le> 32" by simp
      show ?thesis
      proof (cases "realloc_cells m (map Str ws @ [Str t]) 64")
        case None
        then show ?thesis
          unfolding jn step by (simp add: full True SH_ARG_BUFSIZE_def)
      next
        case (Some tokens2)
        then have "length tokens2 \<le> 32"
          using small full
          by (auto simp: realloc_cells_def split: if_splits)
        then have "\<exists>e. parse_loop m tokens2 64 32 (strtok saved) = Inl e"
          by (rule parse_loop_full)
        then show ?thesis
          unfolding jn step using Some by (simp add: full True SH_ARG_BUFSIZE_def)
      qed
    next
      case False
      with Cons.prems(2) jn have room: "length ws + 1 < 32" by (cases js) auto
      have "\<exists>e. parse_loop m (map Str (ws @ [t]) @ js) 32 (length (ws @ [t])) (strtok saved) = Inl e"
        using Cons.prems jn by (intro Cons.IH) (simp_all add: pending_strtok sv)
      then show ?thesis
        unfolding jn step using room by simp
    qed
  qed
qed

lemma parse_command_line_overflow:
  assumes "SH_ARG_BUFSIZE \<le> length (spec_tokens line)" and "2 \<le> ptr_size m"
  shows "\<exists>e. parse_command_line m line = Inl e"
proof (cases "malloc_cells m (int SH_ARG_BUFSIZE)")
  case None
  then show ?thesis by (simp add: parse_command_line_def)
next
  case (Some tokens)
  then have t: "tokens = replicate 32 Junk"
    by (simp add: malloc_cells_def SH_ARG_BUFSIZE_def split: if_splits)
  have "\<exists>e. parse_loop m (map Str [] @ replicate 32 Junk) 32 (length ([] :: string list)) (strtok line) = Inl e"
    using assms by (intro parse_loop_overflow) (simp_all add: pending_strtok SH_ARG_BUFSIZE_def)
  then show ?thesis using Some by (simp add: parse_command_line_def t SH_ARG_BUFSIZE_def)
qed

lemma parse_command_line_examples:
  "parse_command_line machine64 ''ls -la'' = Inr (argv [''ls'', ''-la''] (replicate 29 Junk))"
  "parse_command_line machine64 [] = Inr (argv [] (replicate 31 Junk))"
  "parse_command_line machine64 ''a  b'' = Inr (argv [''a'', ''b''] (replicate 29 Junk))"
  by code_simp+

text \<open>
  C5, at the input that shows the defect: a line of 32 tokens, on a machine with 8-byte
  pointers that grants every allocation. After the 32nd token is stored \<^verbatim>\<open>index\<close>
  reaches \<^verbatim>\<open>bufsize\<close>, and \<^verbatim>\<open>realloc(tokens, bufsize)\<close> asks for 64 bytes where
  \<^verbatim>\<open>64 * sizeof(char *)\<close> are meant: the array shrinks to 8 slots and the terminator is
  written at index 32, outside it. The tokenizer does not produce the sequence of the 32
  tokens.
\<close>

theorem parse_command_line_thirty_two_tokens:
  "parse_command_line machine64
     ''a a a a a a a a a a a a a a a a a a a a a a a a a a a a a a a a'' =
   Inl OutOfBounds"
  by code_simp

end
